theory Spec2Isabelle
  imports Main
begin

section \<open>JavaScript strings\<close>

text \<open>
  A JavaScript string is a sequence of UTF-16 code units. The model uses \<^typ>\<open>string\<close>:
  one \<^typ>\<open>char\<close> per code unit, for the code units U+0000 to U+00FF. \<open>length\<close> is
  the \<open>.length\<close> of the source and \<open>take n\<close> is \<open>.substring(0, n)\<close>.
\<close>

definition NL :: char where
  "NL = CHR 0x0A"

text \<open>
  The characters matched by \<open>\s\<close> and stripped by \<open>String.prototype.trim\<close>
  (WhiteSpace and LineTerminator of ECMA-262) among the code units below U+0100:
  TAB, LF, VT, FF, CR, SPACE and NBSP.
\<close>

definition is_space :: "char \<Rightarrow> bool" where
  "is_space c \<longleftrightarrow>
     c = CHR 0x09 \<or> c = CHR 0x0A \<or> c = CHR 0x0B \<or> c = CHR 0x0C \<or> c = CHR 0x0D \<or>
     c = CHR 0x20 \<or> c = CHR 0xA0"

definition trim :: "string \<Rightarrow> string" where
  "trim s = rev (dropWhile is_space (rev (dropWhile is_space s)))"

text \<open>\<open>s.split('\n')\<close>: never the empty list; the empty string gives one empty line.\<close>

fun split_nl :: "string \<Rightarrow> string list" where
  "split_nl [] = [[]]"
| "split_nl (c # cs) =
     (if c = NL then [] # split_nl cs
      else (case split_nl cs of l # ls \<Rightarrow> (c # l) # ls | [] \<Rightarrow> [[c]]))"

text \<open>\<open>xs.join(sep)\<close>\<close>

fun join :: "string \<Rightarrow> string list \<Rightarrow> string" where
  "join sep [] = []"
| "join sep [x] = x"
| "join sep (x # y # ys) = x @ sep @ join sep (y # ys)"

text \<open>The letters that change under a case mapping, among the code units below U+0100.\<close>

definition ascii_lower :: string where
  "ascii_lower = ''abcdefghijklmnopqrstuvwxyz''"

definition ascii_upper :: string where
  "ascii_upper = ''ABCDEFGHIJKLMNOPQRSTUVWXYZ''"

text \<open>U+00C0 to U+00DE, the multiplication sign U+00D7 apart.\<close>

definition latin1_upper :: string where
  "latin1_upper =
     [CHR 0xC0, CHR 0xC1, CHR 0xC2, CHR 0xC3, CHR 0xC4, CHR 0xC5, CHR 0xC6, CHR 0xC7,
      CHR 0xC8, CHR 0xC9, CHR 0xCA, CHR 0xCB, CHR 0xCC, CHR 0xCD, CHR 0xCE, CHR 0xCF,
      CHR 0xD0, CHR 0xD1, CHR 0xD2, CHR 0xD3, CHR 0xD4, CHR 0xD5, CHR 0xD6, CHR 0xD8,
      CHR 0xD9, CHR 0xDA, CHR 0xDB, CHR 0xDC, CHR 0xDD, CHR 0xDE]"

text \<open>U+00E0 to U+00FE, the division sign U+00F7 apart.\<close>

definition latin1_lower :: string where
  "latin1_lower =
     [CHR 0xE0, CHR 0xE1, CHR 0xE2, CHR 0xE3, CHR 0xE4, CHR 0xE5, CHR 0xE6, CHR 0xE7,
      CHR 0xE8, CHR 0xE9, CHR 0xEA, CHR 0xEB, CHR 0xEC, CHR 0xED, CHR 0xEE, CHR 0xEF,
      CHR 0xF0, CHR 0xF1, CHR 0xF2, CHR 0xF3, CHR 0xF4, CHR 0xF5, CHR 0xF6, CHR 0xF8,
      CHR 0xF9, CHR 0xFA, CHR 0xFB, CHR 0xFC, CHR 0xFD, CHR 0xFE]"

text \<open>
  \<open>String.prototype.toLowerCase\<close> on the code units below U+0100: A-Z and the
  Latin-1 capitals map to their small letters, every other code unit to itself.
\<close>

definition lower_char :: "char \<Rightarrow> char" where
  "lower_char c =
     (case map_of (zip (ascii_upper @ latin1_upper) (ascii_lower @ latin1_lower)) c of
        Some l \<Rightarrow> l
      | None \<Rightarrow> c)"

definition toLowerCase :: "string \<Rightarrow> string" where
  "toLowerCase s = map lower_char s"

fun startsWith :: "string \<Rightarrow> string \<Rightarrow> bool" where
  "startsWith s [] = True"
| "startsWith [] (p # ps) = False"
| "startsWith (c # cs) (p # ps) = (c = p \<and> startsWith cs ps)"

text \<open>\<open>s.includes(sub)\<close>\<close>

fun includes_str :: "string \<Rightarrow> string \<Rightarrow> bool" where
  "includes_str [] sub = (sub = [])"
| "includes_str (c # cs) sub = (startsWith (c # cs) sub \<or> includes_str cs sub)"

text \<open>\<open>a || b\<close> on strings: the empty string is the only falsy string.\<close>

definition or_else :: "string \<Rightarrow> string \<Rightarrow> string" where
  "or_else a b = (if a \<noteq> [] then a else b)"


section \<open>The regular expressions of the section extractor\<close>

text \<open>
  A backtracking matcher maps the remaining input to the list of remaining inputs after
  each way of matching, in the order in which the backtracking search of ECMA-262 tries
  them. Sequencing is \<open>concat (map \<dots>)\<close>, so the list of a sequence is in depth-first
  order, and the match the engine reports is the head of the list.
\<close>

type_synonym matcher = "string \<Rightarrow> string list"

text \<open>
  Canonicalize of ECMA-262 for the \<open>i\<close> flag without the \<open>u\<close> flag, on the code units
  below U+0100, as far as the comparison with the ASCII characters of the patterns goes:
  a-z map to A-Z; no other code unit below U+0100 maps to an ASCII character.
\<close>

definition canonicalize :: "char \<Rightarrow> char" where
  "canonicalize c =
     (case map_of (zip ascii_lower ascii_upper) c of
        Some u \<Rightarrow> u
      | None \<Rightarrow> c)"

fun startsWith_i :: "string \<Rightarrow> string \<Rightarrow> bool" where
  "startsWith_i s [] = True"
| "startsWith_i [] (p # ps) = False"
| "startsWith_i (c # cs) (p # ps) = (canonicalize c = canonicalize p \<and> startsWith_i cs ps)"

text \<open>A literal of the pattern, under the \<open>i\<close> flag.\<close>

definition lit_i :: "string \<Rightarrow> matcher" where
  "lit_i p s = (if startsWith_i s p then [drop (length p) s] else [])"

text \<open>\<open>(?:a|b|\<dots>)\<close>: the alternatives from left to right.\<close>

definition alts :: "matcher list \<Rightarrow> matcher" where
  "alts ms s = concat (map (\<lambda>m. m s) ms)"

definition seq :: "matcher \<Rightarrow> matcher \<Rightarrow> matcher" where
  "seq m1 m2 s = concat (map m2 (m1 s))"

text \<open>\<open>(?:^|\n)\<close> without the \<open>m\<close> flag: \<open>^\<close> holds at index 0 only.\<close>

definition line_start :: "bool \<Rightarrow> matcher" where
  "line_start at0 s = (if at0 then [s] else []) @ lit_i [NL] s"

text \<open>\<open>\s*\<close>, greedy: the longest run of white space first, then each shorter one.\<close>

fun ws_star :: matcher where
  "ws_star [] = [[]]"
| "ws_star (c # cs) = (if is_space c then ws_star cs @ [c # cs] else [c # cs])"

text \<open>\<open>\n?\<close>, greedy: one line feed first, then none.\<close>

definition opt_nl :: matcher where
  "opt_nl s = lit_i [NL] s @ [s]"

text \<open>
  \<open>(.+?)\<close> under the \<open>s\<close> flag, lazy: one character first, then one more each time.
  Each way gives the captured text and the remaining input.
\<close>

fun lazy_dots :: "string \<Rightarrow> string \<Rightarrow> (string \<times> string) list" where
  "lazy_dots acc [] = []"
| "lazy_dots acc (c # cs) = (acc @ [c], cs) # lazy_dots (acc @ [c]) cs"

text \<open>\<open>$\<close> without the \<open>m\<close> flag: the end of the input.\<close>

definition eos :: matcher where
  "eos s = (if s = [] then [[]] else [])"

text \<open>
  The three patterns have the shape \<open>(?:^|\n)(?:L1|L2|\<dots>):\s*\n?(.+?)(?:T)\<close>.
  First the part after the colon, \<open>\s*\n?(.+?)(?:T)\<close>: the texts captured by group 1,
  in backtracking order. The terminator \<open>T\<close> ends the pattern, so a way of matching
  succeeds when \<open>T\<close> matches at all.
\<close>

definition section_body :: "matcher \<Rightarrow> string \<Rightarrow> string list" where
  "section_body terminator s3 =
     [cap.
        s4 \<leftarrow> ws_star s3,
        s5 \<leftarrow> opt_nl s4,
        (cap, s6) \<leftarrow> lazy_dots [] s5,
        terminator s6 \<noteq> []]"

text \<open>The whole pattern, tried at one start index; \<open>at0\<close> tells whether the index is 0.\<close>

definition section_re :: "string list \<Rightarrow> matcher \<Rightarrow> bool \<Rightarrow> string \<Rightarrow> string list" where
  "section_re labels terminator at0 s =
     [cap.
        s1 \<leftarrow> line_start at0 s,
        s2 \<leftarrow> alts (map lit_i labels) s1,
        s3 \<leftarrow> lit_i '':'' s2,
        cap \<leftarrow> section_body terminator s3]"

text \<open>
  \<open>content.match(re)\<close> for a pattern without the \<open>g\<close> flag: the start indices
  0, 1, \<dots>, \<open>content.length\<close> in turn; the first index with a match decides.
  The result is group 1 of the match, \<open>None\<close> for \<open>null\<close>.
\<close>

fun search :: "(bool \<Rightarrow> string \<Rightarrow> string list) \<Rightarrow> bool \<Rightarrow> string \<Rightarrow> string option" where
  "search r at0 [] = (case r at0 [] of cap # _ \<Rightarrow> Some cap | [] \<Rightarrow> None)"
| "search r at0 (c # cs) =
     (case r at0 (c # cs) of cap # _ \<Rightarrow> Some cap | [] \<Rightarrow> search r False cs)"

definition regex_match :: "string list \<Rightarrow> matcher \<Rightarrow> string \<Rightarrow> string option" where
  "regex_match labels terminator content = search (section_re labels terminator) True content"

text \<open>\<open>(?:\n\n|\n(?:PLAN|Plan|RATIONALE|Rationale):|$)\<close>\<close>

definition systemPrompt_end :: matcher where
  "systemPrompt_end =
     alts [lit_i [NL, NL],
           seq (lit_i [NL])
             (seq (alts (map lit_i [''PLAN'', ''Plan'', ''RATIONALE'', ''Rationale'']))
                (lit_i '':'')),
           eos]"

text \<open>\<open>(?:\n\n|\n(?:RATIONALE|Rationale|SYSTEM|System):|$)\<close>\<close>

definition plan_end :: matcher where
  "plan_end =
     alts [lit_i [NL, NL],
           seq (lit_i [NL])
             (seq (alts (map lit_i [''RATIONALE'', ''Rationale'', ''SYSTEM'', ''System'']))
                (lit_i '':'')),
           eos]"

definition systemPrompt_labels :: "string list" where
  "systemPrompt_labels = [''SYSTEM PROMPT'', ''System Prompt'', ''SYSTEM'', ''System'']"

definition plan_labels :: "string list" where
  "plan_labels = [''PLAN'', ''Plan'', ''IMPLEMENTATION PLAN'', ''Implementation Plan'']"

definition rationale_labels :: "string list" where
  "rationale_labels = [''RATIONALE'', ''Rationale'', ''REASONING'', ''Reasoning'']"


section \<open>orchestrator.ts: the section extractor\<close>

definition nonblank_lines :: "string \<Rightarrow> string list" where
  "nonblank_lines content = filter (\<lambda>l. trim l \<noteq> []) (split_nl content)"

definition extractSystemPrompt :: "string \<Rightarrow> string" where
  "extractSystemPrompt content =
     (case regex_match systemPrompt_labels systemPrompt_end content of
        Some cap \<Rightarrow> trim cap
      | None \<Rightarrow>
          (case nonblank_lines content of
             firstParagraph # rest \<Rightarrow>
               if length firstParagraph > 200
               then trim (take 200 firstParagraph) @ ''...''
               else trim (join '' '' (take 3 (firstParagraph # rest)))
           | [] \<Rightarrow> trim content))"

definition extractPlan :: "string \<Rightarrow> string" where
  "extractPlan content =
     (case regex_match plan_labels plan_end content of
        Some cap \<Rightarrow> trim cap
      | None \<Rightarrow> [])"

definition extractRationale :: "string \<Rightarrow> string" where
  "extractRationale content =
     (case regex_match rationale_labels eos content of
        Some cap \<Rightarrow> trim cap
      | None \<Rightarrow> [])"


subsection \<open>Inputs with a labelled section\<close>

text \<open>Equality of two texts up to the case of the letters A-Z.\<close>

definition eq_i :: "string \<Rightarrow> string \<Rightarrow> bool" where
  "eq_i a b \<longleftrightarrow> map canonicalize a = map canonicalize b"

text \<open>The text begins with \<open>SYSTEM PROMPT:\<close> or \<open>SYSTEM:\<close>, in any letter case.\<close>

definition systemPrompt_label_at :: "string \<Rightarrow> bool" where
  "systemPrompt_label_at s \<longleftrightarrow>
     startsWith_i s ''SYSTEM PROMPT:'' \<or> startsWith_i s ''SYSTEM:''"

text \<open>
  No line of the text begins with \<open>SYSTEM PROMPT:\<close> or \<open>SYSTEM:\<close>; \<open>bol\<close> tells
  whether the text starts at the beginning of a line.
\<close>

fun no_label_line :: "bool \<Rightarrow> string \<Rightarrow> bool" where
  "no_label_line bol [] = True"
| "no_label_line bol (c # cs) =
     ((bol \<longrightarrow> \<not> systemPrompt_label_at (c # cs)) \<and> no_label_line (c = NL) cs)"

text \<open>
  The places where the pattern lets a section end: the end of the input, two line feeds
  (an empty line), or a line feed followed by \<open>PLAN:\<close> or \<open>RATIONALE:\<close> in any letter
  case (the next label).
\<close>

fun section_end_at :: "string \<Rightarrow> bool" where
  "section_end_at [] = True"
| "section_end_at (c # cs) =
     (c = NL \<and>
      (startsWith cs [NL] \<or> startsWith_i cs ''PLAN:'' \<or> startsWith_i cs ''RATIONALE:''))"

text \<open>The section does not end at any place of the text \<open>s\<close>, which \<open>rest\<close> follows.\<close>

fun no_end_inside :: "string \<Rightarrow> string \<Rightarrow> bool" where
  "no_end_inside [] rest = True"
| "no_end_inside (c # cs) rest =
     (\<not> section_end_at (c # cs @ rest) \<and> no_end_inside cs rest)"


section \<open>orchestrator.ts: merging\<close>

datatype provider = codex | claude

record PlanResult =
  provider :: provider
  systemPrompt :: string
  plan :: string
  rationale :: string

record JanusOutput =
  codex_result :: PlanResult
  claude_result :: PlanResult
  mergedPrompt :: string
  mergedNotes :: string

definition is_refinement :: "string \<Rightarrow> bool" where
  "is_refinement line =
     (let trimmed = toLowerCase (trim line) in
      includes_str trimmed ''consider'' \<or> includes_str trimmed ''ensure'' \<or>
      includes_str trimmed ''avoid'' \<or> includes_str trimmed ''note'')"

definition mergeSystemPrompts :: "string \<Rightarrow> string \<Rightarrow> string \<Rightarrow> string" where
  "mergeSystemPrompts task codexPrompt claudePrompt =
     (let codexCore = extractSystemPrompt codexPrompt;
          claudeCore = extractSystemPrompt claudePrompt;
          parts0 = [''Task: '' @ task];
          parts1 = (if codexCore \<noteq> [] then parts0 @ [NL # ''Approach: '' @ codexCore]
                    else parts0);
          parts2 =
            (if claudeCore \<noteq> [] \<and> claudeCore \<noteq> codexCore then
               (let claudeRefinements = join ''; '' (filter is_refinement (split_nl claudeCore))
                in if claudeRefinements \<noteq> []
                   then parts1 @ [NL # ''Considerations: '' @ claudeRefinements]
                   else parts1)
             else parts1)
      in if length parts2 \<le> 1
         then task @ [NL, NL] @
              or_else codexCore ''Execute the task with precision and clarity.''
         else join [] parts2)"

text \<open>
  The sections of one planner's result as \<open>planWithJanus\<close> extracts them, for instance
  \<open>codexSystemPrompt\<close>, \<open>codexPlanText\<close> and \<open>codexRationale\<close>.
\<close>

definition section_systemPrompt :: "PlanResult \<Rightarrow> string" where
  "section_systemPrompt r = extractSystemPrompt (systemPrompt r)"

definition section_planText :: "PlanResult \<Rightarrow> string" where
  "section_planText r = or_else (extractPlan (systemPrompt r)) (plan r)"

definition section_rationale :: "PlanResult \<Rightarrow> string" where
  "section_rationale r = or_else (extractRationale (systemPrompt r)) (rationale r)"

text \<open>The entries of the array literal of \<open>mergedNotes\<close>, before \<open>.filter\<close>.\<close>

definition notes_blocks :: "PlanResult \<Rightarrow> PlanResult \<Rightarrow> string list" where
  "notes_blocks cx cl =
     [''# Codex Proposal'',
      [],
      ''## System Prompt'',
      section_systemPrompt cx,
      [],
      ''## Plan'',
      or_else (section_planText cx) ''(see rationale)'',
      [],
      ''## Rationale'',
      or_else (section_rationale cx) (rationale cx),
      [],
      ''---'',
      [],
      ''# Claude Proposal'',
      [],
      ''## System Prompt'',
      section_systemPrompt cl,
      [],
      ''## Plan'',
      or_else (section_planText cl) ''(see rationale)'',
      [],
      ''## Rationale'',
      or_else (section_rationale cl) (rationale cl)]"

text \<open>
  \<open>planWithJanus\<close> after \<open>await Promise.all([codexPlan(task), claudePlan(task)])\<close>:
  \<open>cx\<close> and \<open>cl\<close> are the two results awaited.
\<close>

definition planWithJanus :: "string \<Rightarrow> PlanResult \<Rightarrow> PlanResult \<Rightarrow> JanusOutput" where
  "planWithJanus task cx cl =
     \<lparr> codex_result = cx,
       claude_result = cl,
       mergedPrompt =
         mergeSystemPrompts task (section_systemPrompt cx) (section_systemPrompt cl),
       mergedNotes = join [NL] (filter (\<lambda>line. line \<noteq> []) (notes_blocks cx cl)) \<rparr>"


section \<open>claudePlanner.ts: the fallback chain\<close>

text \<open>A thrown JavaScript error (or the reason of a rejected promise), with its message.\<close>

datatype error = Error string

text \<open>
  A block of \<open>message.content\<close>: its \<open>type\<close>, and its \<open>text\<close> when that is a
  string (\<open>None\<close> when the property is absent or of another type).
\<close>

record ContentBlock =
  block_type :: string
  block_text :: "string option"

text \<open>
  The body of an HTTP response as \<open>JSON.parse\<close> sees it: a syntax error, the value
  \<open>null\<close> (reading a property of it throws), or any other value, given by the
  list of its properties and their values. \<open>PlanResult\<close> declares its fields as
  strings, and the model covers the bodies whose properties read here are strings
  or absent.
\<close>

datatype json_body = NotJson | JsonNull | JsonProps "(string \<times> string) list"

text \<open>
  What the request of \<open>planWithHttpService\<close> does: \<open>new URL(url)\<close> throws; the request
  emits \<open>error\<close>; the response ends with the text \<open>data\<close>, which \<open>JSON.parse\<close> reads
  as the given body; or the response begins and is cut before its \<open>end\<close> event. The
  source listens to \<open>error\<close> on the request and to \<open>data\<close> and \<open>end\<close> on the response
  only, so in the last case neither \<open>resolve\<close> nor \<open>reject\<close> is ever called.
\<close>

datatype http_outcome =
  UrlInvalid error | RequestError error | ResponseEnd string json_body | ResponseAborted

text \<open>
  The environment of one call of \<open>claudePlan\<close>: the four configuration values of
  \<open>process.env\<close> (\<open>None\<close> for \<open>undefined\<close>) and, for each transport, the outcome of the
  one request it makes for the task: \<open>Inl\<close> a thrown error, \<open>Inr\<close> the value received.
  For the Anthropic request the value is \<open>message.content\<close> (\<open>None\<close> for
  \<open>undefined\<close>); for the command, \<open>stdout\<close> and \<open>stderr\<close>; for the OpenAI request,
  the list \<open>res.choices\<close>, each choice given by its \<open>message.content\<close> (\<open>None\<close> when the
  message or its content is null or undefined). These three requests are awaited promises
  of the libraries, which settle when the call ends; the promise of the HTTP request is
  built in the source, and its outcomes are those of \<open>http_outcome\<close>.
\<close>

record world =
  ANTHROPIC_API_KEY :: "string option"
  CLAUDE_FLOW_URL :: "string option"
  CLAUDE_FLOW_CMD :: "string option"
  OPENAI_API_KEY :: "string option"
  anthropic_create :: "error + ContentBlock list option"
  http_request :: http_outcome
  exec_cmd :: "error + string \<times> string"
  openai_create :: "error + string option list"

text \<open>\<open>!value\<close> for a configuration value: undefined or the empty string.\<close>

definition unset :: "string option \<Rightarrow> bool" where
  "unset v \<longleftrightarrow> v = None \<or> v = Some []"

text \<open>
  \<open>content?.filter(block => block.type === 'text' && typeof block.text === 'string')
  .map(block => block.text).join('\n') ?? ''\<close>
\<close>

definition message_text :: "ContentBlock list option \<Rightarrow> string" where
  "message_text content =
     (case content of
        None \<Rightarrow> []
      | Some blocks \<Rightarrow>
          join [NL]
            (map (\<lambda>block. the (block_text block))
               (filter (\<lambda>block. block_type block = ''text'' \<and> block_text block \<noteq> None)
                  blocks)))"

definition anthropic_result :: "ContentBlock list option \<Rightarrow> PlanResult" where
  "anthropic_result content =
     \<lparr> provider = claude,
       systemPrompt = message_text content,
       plan = message_text content,
       rationale = ''Claude-style critique via Anthropic API.'' \<rparr>"

text \<open>
  The result is \<open>Inl\<close> when the promise rejects, \<open>Inr None\<close> when it resolves to
  \<open>null\<close>. Both branches of the \<open>catch\<close> return \<open>null\<close>.
\<close>

definition planWithAnthropic :: "world \<Rightarrow> string \<Rightarrow> error + PlanResult option" where
  "planWithAnthropic w task =
     (if unset (ANTHROPIC_API_KEY w) then Inr None
      else (case anthropic_create w of
              Inl err \<Rightarrow> Inr None
            | Inr content \<Rightarrow> Inr (Some (anthropic_result content))))"

text \<open>
  A property read used as an operand of \<open>||\<close>: \<open>undefined\<close> (no such property) is
  falsy like the empty string.
\<close>

definition prop_or_empty :: "(string \<times> string) list \<Rightarrow> string \<Rightarrow> string" where
  "prop_or_empty result name = (case map_of result name of None \<Rightarrow> [] | Some v \<Rightarrow> v)"

text \<open>The handler of the \<open>end\<close> event: what the promise resolves to.\<close>

definition http_result :: "string \<Rightarrow> json_body \<Rightarrow> PlanResult" where
  "http_result data body =
     (case body of
        JsonProps result \<Rightarrow>
          \<lparr> provider = claude,
            systemPrompt = or_else (prop_or_empty result ''systemPrompt'') (or_else (prop_or_empty result ''content'') data),
            plan = or_else (prop_or_empty result ''plan'') (or_else (prop_or_empty result ''content'') data),
            rationale =
              or_else (prop_or_empty result ''rationale'')
                ''Claude-style critique via external HTTP service.'' \<rparr>
      | _ \<Rightarrow>
          \<lparr> provider = claude,
            systemPrompt = data,
            plan = data,
            rationale = ''Claude-style critique via external HTTP service.'' \<rparr>)"

text \<open>
  The promise built in the \<open>try\<close> block is returned without \<open>await\<close>: when the request
  emits \<open>error\<close> the promise of \<open>planWithHttpService\<close> rejects. Only the exception of
  \<open>new URL\<close> reaches the \<open>catch\<close>. The promise is built by hand, so it can stay pending:
  the result is \<open>None\<close> when it never settles, \<open>Some\<close> of the settled value otherwise.
\<close>

definition planWithHttpService :: "world \<Rightarrow> string \<Rightarrow> (error + PlanResult option) option" where
  "planWithHttpService w task =
     (if unset (CLAUDE_FLOW_URL w) then Some (Inr None)
      else (case http_request w of
              UrlInvalid err \<Rightarrow> Some (Inr None)
            | RequestError err \<Rightarrow> Some (Inl err)
            | ResponseEnd data body \<Rightarrow> Some (Inr (Some (http_result data body)))
            | ResponseAborted \<Rightarrow> None))"

definition planWithCliCommand :: "world \<Rightarrow> string \<Rightarrow> error + PlanResult option" where
  "planWithCliCommand w task =
     (if unset (CLAUDE_FLOW_CMD w) then Inr None
      else (case exec_cmd w of
              Inl err \<Rightarrow> Inr None
            | Inr (stdout, stderr) \<Rightarrow>
                (let content = or_else (trim stdout) (trim stderr)
                 in if content = [] then Inr None
                    else Inr (Some \<lparr> provider = claude,
                                     systemPrompt = content,
                                     plan = content,
                                     rationale =
                                       ''Claude-style critique via external CLI command.'' \<rparr>))))"

definition stub_result :: PlanResult where
  "stub_result =
     \<lparr> provider = claude,
       systemPrompt =
         ''Claude-Flow stub: no API keys configured. Set ANTHROPIC_API_KEY, CLAUDE_FLOW_URL, CLAUDE_FLOW_CMD, or OPENAI_API_KEY.'',
       plan = ''Treat this as a placeholder until real Claude integration is wired.'',
       rationale = ''Stub response generated locally.'' \<rparr>"

text \<open>\<open>res.choices[0]?.message?.content ?? ''\<close>\<close>

definition first_choice_content :: "string option list \<Rightarrow> string" where
  "first_choice_content choices =
     (case choices of
        [] \<Rightarrow> []
      | c # _ \<Rightarrow> (case c of None \<Rightarrow> [] | Some content \<Rightarrow> content))"

definition planWithOpenAIFallback :: "world \<Rightarrow> string \<Rightarrow> error + PlanResult" where
  "planWithOpenAIFallback w task =
     (if unset (OPENAI_API_KEY w) then Inr stub_result
      else (case openai_create w of
              Inl err \<Rightarrow> Inl err
            | Inr choices \<Rightarrow>
                Inr \<lparr> provider = claude,
                      systemPrompt = first_choice_content choices,
                      plan = first_choice_content choices,
                      rationale =
                        ''Claude-style critique synthesized via OpenAI (fallback mode).'' \<rparr>))"

text \<open>
  \<open>try { const r = await f(task); if (r) return r; } catch { }\<close>: the result of the
  stage when it resolves to a result, nothing when it resolves to \<open>null\<close> or rejects.
\<close>

definition try_stage :: "error + PlanResult option \<Rightarrow> PlanResult option" where
  "try_stage res = (case res of Inl err \<Rightarrow> None | Inr r \<Rightarrow> r)"

text \<open>
  The first \<open>await\<close> stands outside any \<open>try\<close>: a rejection there would propagate.
  \<open>await planWithHttpService(task)\<close> never returns when that promise stays pending, and
  then \<open>claudePlan\<close> never settles either: the result is \<open>None\<close>, and \<open>Some\<close> of the
  settled value otherwise.
\<close>

definition claudePlan :: "world \<Rightarrow> string \<Rightarrow> (error + PlanResult) option" where
  "claudePlan w task =
     (case planWithAnthropic w task of
        Inl err \<Rightarrow> Some (Inl err)
      | Inr (Some anthropicResult) \<Rightarrow> Some (Inr anthropicResult)
      | Inr None \<Rightarrow>
          (case planWithHttpService w task of
             None \<Rightarrow> None
           | Some settled \<Rightarrow>
               (case try_stage settled of
                  Some httpResult \<Rightarrow> Some (Inr httpResult)
                | None \<Rightarrow>
                    (case try_stage (planWithCliCommand w task) of
                       Some cliResult \<Rightarrow> Some (Inr cliResult)
                     | None \<Rightarrow> Some (planWithOpenAIFallback w task)))))"

section \<open>Auxiliary views of the pattern\<close>

text \<open>The label and the colon in one step: the remaining inputs after \<open>(?:L1|L2|\<dots>):\<close>.\<close>

definition labelled :: "string list \<Rightarrow> string \<Rightarrow> string list" where
  "labelled labels s1 = concat (map (\<lambda>l. lit_i (l @ '':'') s1) labels)"

text \<open>The captures of \<open>(.+?)(?:T)\<close>, with the text captured so far.\<close>

definition captures :: "matcher \<Rightarrow> string \<Rightarrow> string \<Rightarrow> string list" where
  "captures T acc s = [cap. (cap, s6) \<leftarrow> lazy_dots acc s, T s6 \<noteq> []]"


section \<open>Kept entries, and example planner results\<close>

text \<open>What \<open>.filter((line) => line !== '')\<close> keeps of one entry: nothing of the empty string.\<close>

definition kept :: "string \<Rightarrow> string list" where
  "kept block = filter (\<lambda>line. line \<noteq> []) [block]"

text \<open>The primary planner's result of the example scenario.\<close>

definition example_codex :: PlanResult where
  "example_codex =
     \<lparr> provider = codex,
       systemPrompt =
         ''SYSTEM PROMPT:'' @ [NL] @ ''Build it carefully'' @ [NL, NL] @ ''PLAN:'' @ [NL] @ ''Step 1'',
       plan = [],
       rationale = [] \<rparr>"

text \<open>The secondary planner's result of the example scenario.\<close>

definition example_claude :: PlanResult where
  "example_claude =
     \<lparr> provider = claude,
       systemPrompt = ''Consider edge cases.'' @ [NL] @ ''Note potential race.'',
       plan = [],
       rationale = [] \<rparr>"

text \<open>A primary result with three plain sections.\<close>

definition logger_codex :: PlanResult where
  "logger_codex =
     \<lparr> provider = codex,
       systemPrompt = ''Add a logger'',
       plan = ''Step 1'',
       rationale = ''Keeps a record'' \<rparr>"

text \<open>The secondary result that \<open>claudePlan\<close> returns when the Anthropic message has no text.\<close>

definition silent_claude :: PlanResult where
  "silent_claude =
     \<lparr> provider = claude,
       systemPrompt = [],
       plan = [],
       rationale = ''Claude-style critique via Anthropic API.'' \<rparr>"

text \<open>A primary result whose output has a rationale of two paragraphs.\<close>

definition two_paragraph_codex :: PlanResult where
  "two_paragraph_codex =
     \<lparr> provider = codex,
       systemPrompt = ''RATIONALE:'' @ [NL] @ ''Fast.'' @ [NL, NL] @ ''Safe.'',
       plan = ''Step 1'',
       rationale = [] \<rparr>"


section \<open>Stages that yield nothing, and example environments\<close>

text \<open>The direct-API stage yields nothing: no key is configured, or the request throws.\<close>

definition anthropic_skipped :: "world \<Rightarrow> bool" where
  "anthropic_skipped w \<longleftrightarrow> unset (ANTHROPIC_API_KEY w) \<or> isl (anthropic_create w)"

text \<open>The request of the HTTP stage fails: the URL is invalid or the request emits an error.\<close>

definition http_failed :: "world \<Rightarrow> bool" where
  "http_failed w \<longleftrightarrow>
     (case http_request w of UrlInvalid err \<Rightarrow> True | RequestError err \<Rightarrow> True | _ \<Rightarrow> False)"

text \<open>The HTTP stage yields nothing: no URL is configured, or the request fails.\<close>

definition http_skipped :: "world \<Rightarrow> bool" where
  "http_skipped w \<longleftrightarrow> unset (CLAUDE_FLOW_URL w) \<or> http_failed w"

text \<open>The CLI stage yields nothing: no command is configured, the command fails, or it prints
  nothing but white space on both streams.\<close>

definition cli_skipped :: "world \<Rightarrow> bool" where
  "cli_skipped w \<longleftrightarrow>
     unset (CLAUDE_FLOW_CMD w) \<or>
     (case exec_cmd w of Inl err \<Rightarrow> True | Inr (out, err) \<Rightarrow> or_else (trim out) (trim err) = [])"




text \<open>
  An environment where the response of the HTTP service is cut before its end, and the
  command would answer.
\<close>

definition aborted_world :: world where
  "aborted_world =
     \<lparr> ANTHROPIC_API_KEY = None,
       CLAUDE_FLOW_URL = Some ''http://localhost:3000/plan'',
       CLAUDE_FLOW_CMD = Some ''claude-flow'',
       OPENAI_API_KEY = None,
       anthropic_create = Inl (Error ''not run''),
       http_request = ResponseAborted,
       exec_cmd = Inr (''Check the inputs'', []),
       openai_create = Inl (Error ''not run'') \<rparr>"


text \<open>An environment where every transport is configured and every request fails.\<close>

definition failing_world :: world where
  "failing_world =
     \<lparr> ANTHROPIC_API_KEY = Some ''sk-ant'',
       CLAUDE_FLOW_URL = Some ''http://localhost:3000/plan'',
       CLAUDE_FLOW_CMD = Some ''claude-flow'',
       OPENAI_API_KEY = Some ''sk-openai'',
       anthropic_create = Inl (Error ''Cannot find module''),
       http_request = RequestError (Error ''ECONNREFUSED''),
       exec_cmd = Inl (Error ''Command failed''),
       openai_create = Inl (Error ''Connection error.'') \<rparr>"



section \<open>The fallback chain: properties\<close>






text \<open>The chain after the direct-API stage has yielded nothing and the HTTP stage has settled.\<close>

lemma claudePlan_after_http:
  "planWithAnthropic w task = Inr None \<Longrightarrow> planWithHttpService w task = Some settled \<Longrightarrow>
   claudePlan w task =
     (case try_stage settled of
        Some httpResult \<Rightarrow> Some (Inr httpResult)
      | None \<Rightarrow>
          (case try_stage (planWithCliCommand w task) of
             Some cliResult \<Rightarrow> Some (Inr cliResult)
           | None \<Rightarrow> Some (planWithOpenAIFallback w task)))"
  by (simp add: claudePlan_def)











lemma stages_ANTHROPIC_API_KEY:
  "planWithHttpService (w\<lparr>ANTHROPIC_API_KEY := k\<rparr>) task = planWithHttpService w task"
  "planWithCliCommand (w\<lparr>ANTHROPIC_API_KEY := k\<rparr>) task = planWithCliCommand w task"
  "planWithOpenAIFallback (w\<lparr>ANTHROPIC_API_KEY := k\<rparr>) task = planWithOpenAIFallback w task"
  by (simp_all add: planWithHttpService_def planWithCliCommand_def planWithOpenAIFallback_def)

lemma stages_CLAUDE_FLOW_URL:
  "planWithAnthropic (w\<lparr>CLAUDE_FLOW_URL := k\<rparr>) task = planWithAnthropic w task"
  "planWithCliCommand (w\<lparr>CLAUDE_FLOW_URL := k\<rparr>) task = planWithCliCommand w task"
  "planWithOpenAIFallback (w\<lparr>CLAUDE_FLOW_URL := k\<rparr>) task = planWithOpenAIFallback w task"
  by (simp_all add: planWithAnthropic_def planWithCliCommand_def planWithOpenAIFallback_def)

lemma stages_CLAUDE_FLOW_CMD:
  "planWithAnthropic (w\<lparr>CLAUDE_FLOW_CMD := k\<rparr>) task = planWithAnthropic w task"
  "planWithHttpService (w\<lparr>CLAUDE_FLOW_CMD := k\<rparr>) task = planWithHttpService w task"
  "planWithOpenAIFallback (w\<lparr>CLAUDE_FLOW_CMD := k\<rparr>) task = planWithOpenAIFallback w task"
  by (simp_all add: planWithAnthropic_def planWithHttpService_def planWithOpenAIFallback_def)

text \<open>
  The failures that the chain does catch. When the request of the direct API throws,
  when the HTTP request fails before a response (the URL is invalid or the request emits
  an error), when the command fails, \<open>claudePlan\<close> behaves as if that stage had no
  configuration. An error that \<open>claudePlan\<close> raises is the one of the request of the OpenAI
  fallback itself, after all three stages have yielded nothing. \<open>claudePlan\<close> stays pending
  exactly when the HTTP stage is reached and its response is cut.
\<close>

lemma claudePlan_failure_skipped:
  "(isl (anthropic_create w) \<longrightarrow>
      claudePlan w task = claudePlan (w\<lparr>ANTHROPIC_API_KEY := None\<rparr>) task) \<and>
   (http_failed w \<longrightarrow>
      claudePlan w task = claudePlan (w\<lparr>CLAUDE_FLOW_URL := None\<rparr>) task) \<and>
   (isl (exec_cmd w) \<longrightarrow>
      claudePlan w task = claudePlan (w\<lparr>CLAUDE_FLOW_CMD := None\<rparr>) task) \<and>
   (claudePlan w task = Some (Inl e) \<longrightarrow>
      anthropic_skipped w \<and> http_skipped w \<and> cli_skipped w \<and>
      \<not> unset (OPENAI_API_KEY w) \<and> openai_create w = Inl e) \<and>
   (claudePlan w task = None \<longleftrightarrow>
      anthropic_skipped w \<and> \<not> unset (CLAUDE_FLOW_URL w) \<and> http_request w = ResponseAborted)"
proof (intro conjI impI)
  assume "isl (anthropic_create w)"
  then have st: "planWithAnthropic w task = Inr None"
    "planWithAnthropic (w\<lparr>ANTHROPIC_API_KEY := None\<rparr>) task = Inr None"
    by (auto simp: planWithAnthropic_def unset_def isl_def)
  show "claudePlan w task = claudePlan (w\<lparr>ANTHROPIC_API_KEY := None\<rparr>) task"
    unfolding claudePlan_def stages_ANTHROPIC_API_KEY st by simp
next
  assume "http_failed w"
  then have st: "planWithHttpService w task = Some (Inr None) \<or>
      (\<exists>err. planWithHttpService w task = Some (Inl err))"
    "planWithHttpService (w\<lparr>CLAUDE_FLOW_URL := None\<rparr>) task = Some (Inr None)"
    by (auto simp: planWithHttpService_def http_failed_def unset_def split: http_outcome.splits)
  from st(1) have "claudePlan w task =
      (case planWithAnthropic w task of
         Inl err \<Rightarrow> Some (Inl err)
       | Inr (Some anthropicResult) \<Rightarrow> Some (Inr anthropicResult)
       | Inr None \<Rightarrow>
           (case try_stage (planWithCliCommand w task) of
              Some cliResult \<Rightarrow> Some (Inr cliResult)
            | None \<Rightarrow> Some (planWithOpenAIFallback w task)))"
    by (auto simp: claudePlan_def try_stage_def split: sum.splits option.splits)
  moreover have "claudePlan (w\<lparr>CLAUDE_FLOW_URL := None\<rparr>) task =
      (case planWithAnthropic w task of
         Inl err \<Rightarrow> Some (Inl err)
       | Inr (Some anthropicResult) \<Rightarrow> Some (Inr anthropicResult)
       | Inr None \<Rightarrow>
           (case try_stage (planWithCliCommand w task) of
              Some cliResult \<Rightarrow> Some (Inr cliResult)
            | None \<Rightarrow> Some (planWithOpenAIFallback w task)))"
    unfolding claudePlan_def stages_CLAUDE_FLOW_URL st(2)
    by (simp add: try_stage_def split: sum.splits option.splits)
  ultimately show "claudePlan w task = claudePlan (w\<lparr>CLAUDE_FLOW_URL := None\<rparr>) task"
    by simp
next
  assume "isl (exec_cmd w)"
  then have st: "try_stage (planWithCliCommand w task) = None"
    "try_stage (planWithCliCommand (w\<lparr>CLAUDE_FLOW_CMD := None\<rparr>) task) = None"
    by (auto simp: planWithCliCommand_def try_stage_def unset_def isl_def)
  show "claudePlan w task = claudePlan (w\<lparr>CLAUDE_FLOW_CMD := None\<rparr>) task"
    unfolding claudePlan_def stages_CLAUDE_FLOW_CMD st by simp
next
  assume e: "claudePlan w task = Some (Inl e)"
  have a: "planWithAnthropic w task = Inr None"
    using e by (auto simp: claudePlan_def planWithAnthropic_def split: if_splits sum.splits)
  obtain settled where s: "planWithHttpService w task = Some settled"
    using e a by (cases "planWithHttpService w task") (simp_all add: claudePlan_def)
  note after = claudePlan_after_http [OF a s]
  have h: "try_stage settled = None"
    using e after by (auto split: option.splits)
  have c: "try_stage (planWithCliCommand w task) = None"
    using e after h by (auto split: option.splits)
  have f: "planWithOpenAIFallback w task = Inl e"
    using e after h c by simp
  show "anthropic_skipped w"
    using a by (auto simp: planWithAnthropic_def anthropic_skipped_def split: if_splits sum.splits)
  show "http_skipped w"
    using s h by (auto simp: planWithHttpService_def http_skipped_def http_failed_def
        try_stage_def split: if_splits http_outcome.splits)
  show "cli_skipped w"
    using c by (auto simp: planWithCliCommand_def cli_skipped_def try_stage_def Let_def
        split: if_splits sum.splits)
  show "\<not> unset (OPENAI_API_KEY w)"
    using f by (auto simp: planWithOpenAIFallback_def)
  show "openai_create w = Inl e"
    using f by (auto simp: planWithOpenAIFallback_def split: if_splits sum.splits)
next
  show "claudePlan w task = None \<longleftrightarrow>
      anthropic_skipped w \<and> \<not> unset (CLAUDE_FLOW_URL w) \<and> http_request w = ResponseAborted"
    by (auto simp: claudePlan_def planWithAnthropic_def anthropic_skipped_def
        planWithHttpService_def isl_def
        split: if_splits sum.splits option.splits http_outcome.splits)
qed

text \<open>
  Every transport is configured and every request fails before a response: the three
  stages are skipped, and the error raised is the one of the OpenAI request.
\<close>

lemma claudePlan_failing_world:
  "claudePlan failing_world ''Add logging'' = Some (Inl (Error ''Connection error.''))"
  by (simp add: failing_world_def claudePlan_def planWithAnthropic_def unset_def
      planWithHttpService_def planWithCliCommand_def try_stage_def planWithOpenAIFallback_def)

text \<open>
  C4 (the code departs from the claim). The claim holds for every failure that settles
  the promise of a stage, as \<open>claudePlan_failure_skipped\<close> shows. It fails for one network
  error: when the response of the HTTP service begins and is cut before its \<open>end\<close> event,
  the promise of \<open>planWithHttpService\<close> is neither resolved nor rejected, so \<open>claudePlan\<close>
  stays pending and never proceeds to the CLI stage, which here would give a result.
\<close>

theorem claudePlan_aborted_response:
  "\<not> unset (CLAUDE_FLOW_URL aborted_world) \<and>
   http_request aborted_world = ResponseAborted \<and>
   planWithHttpService aborted_world ''Add logging'' = None \<and>
   claudePlan aborted_world ''Add logging'' = None \<and>
   planWithCliCommand aborted_world ''Add logging'' =
     Inr (Some \<lparr> provider = claude, systemPrompt = ''Check the inputs'',
                 plan = ''Check the inputs'',
                 rationale = ''Claude-style critique via external CLI command.'' \<rparr>)"
proof -
  have t: "trim ''Check the inputs'' = ''Check the inputs''"
    by (simp add: trim_def is_space_def)
  show ?thesis
    by (simp add: aborted_world_def unset_def planWithHttpService_def claudePlan_def
        planWithAnthropic_def planWithCliCommand_def t or_else_def Let_def)
qed



section \<open>The section extractor: matching a labelled section\<close>

lemma canonicalize_notin: "c \<notin> set ascii_lower \<Longrightarrow> canonicalize c = c"
proof -
  assume "c \<notin> set ascii_lower"
  moreover have "length ascii_lower = length ascii_upper"
    by (simp add: ascii_lower_def ascii_upper_def)
  ultimately have "map_of (zip ascii_lower ascii_upper) c = None"
    by simp
  then show ?thesis by (simp add: canonicalize_def)
qed

lemma canonicalize_in: "c \<in> set ascii_lower \<Longrightarrow> canonicalize c \<in> set ascii_upper"
proof -
  assume "c \<in> set ascii_lower"
  moreover have "length ascii_lower = length ascii_upper"
    by (simp add: ascii_lower_def ascii_upper_def)
  ultimately obtain u where u: "map_of (zip ascii_lower ascii_upper) c = Some u"
    using map_of_zip_is_Some by fastforce
  then have "u \<in> set ascii_upper"
    by (meson map_of_SomeD set_zip_rightD)
  with u show ?thesis by (simp add: canonicalize_def)
qed

lemma canonicalize_other:
  assumes "x \<notin> set ascii_lower" "x \<notin> set ascii_upper"
  shows "canonicalize c = x \<longleftrightarrow> c = x"
proof (cases "c \<in> set ascii_lower")
  case True
  then show ?thesis using assms canonicalize_in by metis
next
  case False
  then show ?thesis using assms canonicalize_notin by metis
qed

lemma canonicalize_NL [simp]: "canonicalize c = NL \<longleftrightarrow> c = NL"
  by (rule canonicalize_other) (simp_all add: ascii_lower_def ascii_upper_def NL_def)

lemma canonicalize_NL_self [simp]: "canonicalize NL = NL"
  using canonicalize_NL [of NL] by simp

lemma NL_eq_canonicalize [simp]: "NL = canonicalize c \<longleftrightarrow> c = NL"
  using canonicalize_NL [of c] by (simp only: eq_commute [of NL])

lemma canonicalize_colon [simp]: "canonicalize c = CHR '':'' \<longleftrightarrow> c = CHR '':''"
  by (rule canonicalize_other) (simp_all add: ascii_lower_def ascii_upper_def)

lemma canonicalize_space [simp]: "canonicalize c = CHR '' '' \<longleftrightarrow> c = CHR '' ''"
  by (rule canonicalize_other) (simp_all add: ascii_lower_def ascii_upper_def)

lemma startsWith_i_append:
  "startsWith_i s (p @ q) \<longleftrightarrow> startsWith_i s p \<and> startsWith_i (drop (length p) s) q"
  by (induction s p rule: startsWith_i.induct) auto

lemma startsWith_i_cong:
  "map canonicalize p = map canonicalize q \<Longrightarrow> startsWith_i s p = startsWith_i s q"
proof (induction s p arbitrary: q rule: startsWith_i.induct)
  case (1 s)
  then show ?case by simp
next
  case (2 p ps)
  then show ?case by (cases q) simp_all
next
  case (3 c cs p ps)
  then obtain q' qs where q: "q = q' # qs" "canonicalize p = canonicalize q'"
    "map canonicalize ps = map canonicalize qs"
    by (cases q) auto
  from "3.IH" [OF q(3)] q(1,2) show ?case by simp
qed

lemma startsWith_i_eq_i: "eq_i a p \<Longrightarrow> startsWith_i (a @ t) p"
  unfolding eq_i_def
proof (induction a arbitrary: p)
  case Nil
  then show ?case by simp
next
  case (Cons c a)
  then obtain p' ps where p: "p = p' # ps" "canonicalize c = canonicalize p'"
    "map canonicalize a = map canonicalize ps"
    by (cases p) auto
  from Cons.IH [OF p(3)] p(1,2) show ?case by simp
qed

lemma startsWith_i_straddle:
  "\<forall>c\<in>set p. canonicalize c \<noteq> NL \<Longrightarrow> startsWith_i (b @ NL # t) p = startsWith_i b p"
proof (induction b p rule: startsWith_i.induct)
  case (1 s)
  then show ?case by simp
next
  case (2 p ps)
  then show ?case by simp
next
  case (3 c cs p ps)
  then show ?case by simp
qed

lemma seq_lit_i: "concat (map (lit_i q) (lit_i p s)) = lit_i (p @ q) s"
  by (simp add: lit_i_def startsWith_i_append add.commute)

lemma label_colon:
  "concat (map (lit_i q) (alts (map lit_i labels) s)) = concat (map (\<lambda>l. lit_i (l @ q) s) labels)"
  by (induction labels) (simp_all add: alts_def seq_lit_i)

lemma concat_map_concat:
  "concat (map f (concat (map g xs))) = concat (map (\<lambda>x. concat (map f (g x))) xs)"
  by (induction xs) simp_all

lemma section_re_labelled:
  "section_re labels T at0 s =
     concat (map (section_body T) (concat (map (labelled labels) (line_start at0 s))))"
  unfolding section_re_def labelled_def label_colon [symmetric] concat_map_concat
  by simp

lemma eq_i_length: "eq_i a p \<Longrightarrow> length a = length p"
  unfolding eq_i_def by (metis length_map)

lemma canonicalize_colon_self [simp]: "canonicalize CHR '':'' = CHR '':''"
  using canonicalize_colon [of "CHR '':''"] by simp

lemma canonicalize_space_self [simp]: "canonicalize CHR '' '' = CHR '' ''"
  using canonicalize_space [of "CHR '' ''"] by simp

lemma lit_i_label: "eq_i a p \<Longrightarrow> lit_i (p @ '':'') (a @ CHR '':'' # t) = [t]"
  by (simp add: lit_i_def startsWith_i_append startsWith_i_eq_i eq_i_length)

lemma lit_i_longer_label:
  "eq_i a p \<Longrightarrow> lit_i (p @ CHR '' '' # q) (a @ CHR '':'' # t) = []"
  by (simp add: lit_i_def startsWith_i_append startsWith_i_eq_i eq_i_length)

lemma eq_i_trans: "eq_i a b \<Longrightarrow> eq_i b c \<Longrightarrow> eq_i a c"
  by (simp add: eq_i_def)

lemma eq_i_System: "eq_i ''SYSTEM'' ''System''"
  unfolding eq_i_def by code_simp

lemma labelled_systemPrompt:
  assumes "eq_i label ''SYSTEM PROMPT'' \<or> eq_i label ''SYSTEM''"
  shows "\<exists>ys. labelled systemPrompt_labels (label @ CHR '':'' # t) = t # ys"
  using assms
proof
  assume "eq_i label ''SYSTEM PROMPT''"
  then have "lit_i (''SYSTEM PROMPT'' @ '':'') (label @ CHR '':'' # t) = [t]"
    by (rule lit_i_label)
  then show ?thesis by (simp add: labelled_def systemPrompt_labels_def)
next
  assume l: "eq_i label ''SYSTEM''"
  then have l': "eq_i label ''System''" using eq_i_System by (rule eq_i_trans)
  have "lit_i (''SYSTEM'' @ CHR '' '' # ''PROMPT:'') (label @ CHR '':'' # t) = []"
    using l by (rule lit_i_longer_label)
  moreover have "lit_i (''System'' @ CHR '' '' # ''Prompt:'') (label @ CHR '':'' # t) = []"
    using l' by (rule lit_i_longer_label)
  moreover have "lit_i (''SYSTEM'' @ '':'') (label @ CHR '':'' # t) = [t]"
    using l by (rule lit_i_label)
  ultimately show ?thesis by (simp add: labelled_def systemPrompt_labels_def)
qed

lemma startsWith_i_System_Prompt:
  "startsWith_i s ''System Prompt:'' = startsWith_i s ''SYSTEM PROMPT:''"
  "startsWith_i s ''System:'' = startsWith_i s ''SYSTEM:''"
  by (rule startsWith_i_cong, code_simp)+

lemma labelled_none:
  "\<not> systemPrompt_label_at s \<Longrightarrow> labelled systemPrompt_labels s = []"
  by (simp add: labelled_def systemPrompt_labels_def systemPrompt_label_at_def lit_i_def
      startsWith_i_System_Prompt)

lemma section_re_none:
  assumes "at0 \<longrightarrow> \<not> systemPrompt_label_at s"
    and "\<And>s'. s = NL # s' \<Longrightarrow> \<not> systemPrompt_label_at s'"
  shows "section_re systemPrompt_labels T at0 s = []"
proof -
  have "concat (map (labelled systemPrompt_labels) (line_start at0 s)) = []"
  proof (cases s)
    case Nil
    with assms(1) show ?thesis by (simp add: line_start_def lit_i_def labelled_none)
  next
    case (Cons c cs)
    with assms show ?thesis by (simp add: line_start_def lit_i_def labelled_none)
  qed
  then show ?thesis by (simp add: section_re_labelled)
qed

lemma ws_star_run:
  "\<forall>c\<in>set ws. is_space c \<Longrightarrow> u \<noteq> [] \<Longrightarrow> \<not> is_space (hd u) \<Longrightarrow>
   \<exists>ys. ws_star (ws @ u) = u # ys"
proof (induction ws)
  case Nil
  then show ?case by (cases u) simp_all
next
  case (Cons w ws)
  then obtain ys where "ws_star (ws @ u) = u # ys" by auto
  with Cons.prems show ?case by simp
qed

lemma is_space_NL [simp]: "is_space NL"
  by (simp add: is_space_def NL_def)

lemma opt_nl_other: "u \<noteq> [] \<Longrightarrow> hd u \<noteq> NL \<Longrightarrow> opt_nl u = [u]"
  by (cases u) (simp_all add: opt_nl_def lit_i_def)

lemma captures_Cons:
  "captures T acc (c # cs) =
     (if T cs \<noteq> [] then [acc @ [c]] else []) @ captures T (acc @ [c]) cs"
  by (simp add: captures_def)

lemma captures_first:
  "body \<noteq> [] \<Longrightarrow>
   (\<And>a b. body = a @ b \<Longrightarrow> a \<noteq> [] \<Longrightarrow> b \<noteq> [] \<Longrightarrow> T (b @ tail) = []) \<Longrightarrow>
   T tail \<noteq> [] \<Longrightarrow>
   \<exists>ys. captures T acc (body @ tail) = (acc @ body) # ys"
proof (induction body arbitrary: acc)
  case Nil
  then show ?case by simp
next
  case (Cons c cs)
  show ?case
  proof (cases "cs = []")
    case True
    with Cons.prems(3) show ?thesis by (simp add: captures_Cons)
  next
    case False
    have "T (cs @ tail) = []"
      using Cons.prems(2) [of "[c]" cs] False by simp
    moreover have "\<exists>ys. captures T (acc @ [c]) (cs @ tail) = ((acc @ [c]) @ cs) # ys"
    proof (rule Cons.IH [OF False _ Cons.prems(3)])
      fix a b
      assume "cs = a @ b" "a \<noteq> []" "b \<noteq> []"
      then show "T (b @ tail) = []"
        using Cons.prems(2) [of "c # a" b] by simp
    qed
    ultimately show ?thesis by (auto simp: captures_Cons)
  qed
qed

lemma section_body_first:
  assumes "\<forall>c\<in>set ws. is_space c" and "u \<noteq> []" and "\<not> is_space (hd u)"
    and "\<exists>ys. captures T [] u = cap # ys"
  shows "\<exists>ys. section_body T (ws @ u) = cap # ys"
proof -
  obtain ys where ys: "ws_star (ws @ u) = u # ys"
    using ws_star_run [OF assms(1) assms(2) assms(3)] by blast
  have "hd u \<noteq> NL" using assms(3) by auto
  then have o: "opt_nl u = [u]" using assms(2) by (simp add: opt_nl_other)
  obtain zs where zs: "captures T [] u = cap # zs" using assms(4) by blast
  show ?thesis
    unfolding section_body_def captures_def [symmetric]
    by (simp add: ys o zs)
qed

lemma systemPrompt_end_blank: "systemPrompt_end (NL # NL # rest) \<noteq> []"
  by (simp add: systemPrompt_end_def alts_def lit_i_def)

lemma systemPrompt_end_other: "c \<noteq> NL \<Longrightarrow> systemPrompt_end (c # cs) = []"
  by (simp add: systemPrompt_end_def alts_def seq_def lit_i_def eos_def)

lemma startsWith_i_Plan:
  "startsWith_i s ''Plan:'' = startsWith_i s ''PLAN:''"
  "startsWith_i s ''Rationale:'' = startsWith_i s ''RATIONALE:''"
  by (rule startsWith_i_cong, code_simp)+

lemma seq_lit_NL: "seq (lit_i [NL]) M (NL # cs) = M cs"
  by (simp add: seq_def lit_i_def)

lemma systemPrompt_end_unfold:
  "systemPrompt_end s =
     lit_i [NL, NL] s @
     seq (lit_i [NL])
       (seq (alts (map lit_i [''PLAN'', ''Plan'', ''RATIONALE'', ''Rationale''])) (lit_i '':'')) s @
     eos s"
  by (simp add: systemPrompt_end_def alts_def)

lemma systemPrompt_end_NL:
  "systemPrompt_end (NL # cs) = [] \<longleftrightarrow>
     \<not> startsWith cs [NL] \<and> \<not> startsWith_i cs ''PLAN:'' \<and> \<not> startsWith_i cs ''RATIONALE:''"
proof -
  have 1: "lit_i [NL, NL] (NL # cs) = [] \<longleftrightarrow> \<not> startsWith cs [NL]"
    by (cases cs) (simp_all add: lit_i_def)
  have "lit_i ''Plan:'' cs = lit_i ''PLAN:'' cs" "lit_i ''Rationale:'' cs = lit_i ''RATIONALE:'' cs"
    by (simp_all only: lit_i_def startsWith_i_Plan list.size)
  then have "concat (map (\<lambda>l. lit_i (l @ '':'') cs)
      [''PLAN'', ''Plan'', ''RATIONALE'', ''Rationale'']) =
      lit_i ''PLAN:'' cs @ lit_i ''PLAN:'' cs @ lit_i ''RATIONALE:'' cs @ lit_i ''RATIONALE:'' cs"
    by simp
  moreover have "lit_i ''PLAN:'' cs = [] \<longleftrightarrow> \<not> startsWith_i cs ''PLAN:''"
    "lit_i ''RATIONALE:'' cs = [] \<longleftrightarrow> \<not> startsWith_i cs ''RATIONALE:''"
    by (simp_all only: lit_i_def split: if_splits) simp_all
  ultimately have 2: "seq (alts (map lit_i [''PLAN'', ''Plan'', ''RATIONALE'', ''Rationale'']))
      (lit_i '':'') cs = [] \<longleftrightarrow>
      \<not> startsWith_i cs ''PLAN:'' \<and> \<not> startsWith_i cs ''RATIONALE:''"
    by (simp only: seq_def label_colon append_is_Nil_conv) blast
  have 3: "eos (NL # cs) = []" by (simp add: eos_def)
  show ?thesis
    by (simp only: systemPrompt_end_unfold seq_lit_NL 3 append_Nil2 append_is_Nil_conv 1 2)
qed

lemma systemPrompt_end_iff: "systemPrompt_end s = [] \<longleftrightarrow> \<not> section_end_at s"
proof (cases s)
  case Nil
  then show ?thesis
    by (simp add: systemPrompt_end_unfold lit_i_def seq_def eos_def)
next
  case (Cons c cs)
  show ?thesis
  proof (cases "c = NL")
    case True
    with Cons show ?thesis by (simp only: systemPrompt_end_NL section_end_at.simps) blast
  next
    case False
    with Cons show ?thesis by (simp add: systemPrompt_end_other)
  qed
qed

lemma no_end_inside_suffix:
  "no_end_inside (x @ b) rest \<Longrightarrow> b \<noteq> [] \<Longrightarrow> \<not> section_end_at (b @ rest)"
proof (induction x)
  case Nil
  then show ?case by (cases b) simp_all
next
  case (Cons a x)
  then show ?case by simp
qed

lemma section_text_no_end:
  assumes "no_end_inside (tl body) rest" and "body = a @ b" and "a \<noteq> []" and "b \<noteq> []"
  shows "systemPrompt_end (b @ rest) = []"
proof -
  from assms(2,3) have "tl body = tl a @ b" by (cases a) simp_all
  with assms(1) have "no_end_inside (tl a @ b) rest" by simp
  then have "\<not> section_end_at (b @ rest)" using assms(4) by (rule no_end_inside_suffix)
  with systemPrompt_end_iff show ?thesis by blast
qed

lemma startsWith_i_straddle_labels:
  "startsWith_i (b @ NL # t) ''SYSTEM PROMPT:'' = startsWith_i b ''SYSTEM PROMPT:''"
  "startsWith_i (b @ NL # t) ''SYSTEM:'' = startsWith_i b ''SYSTEM:''"
  by (rule startsWith_i_straddle, simp, simp add: NL_def)+

lemma systemPrompt_label_at_straddle:
  "systemPrompt_label_at (x @ NL # t) = systemPrompt_label_at x"
  by (simp add: systemPrompt_label_at_def startsWith_i_straddle_labels)

lemma no_label_line_hd: "no_label_line True s \<Longrightarrow> \<not> systemPrompt_label_at s"
  by (cases s) (simp_all add: systemPrompt_label_at_def)

lemma search_hit: "r at0 s = cap # ys \<Longrightarrow> search r at0 s = Some cap"
  by (cases s) simp_all

lemma search_skip:
  "no_label_line bol (p @ [NL]) \<Longrightarrow> (at0 \<longrightarrow> bol) \<Longrightarrow>
   search (section_re systemPrompt_labels T) at0 (p @ NL # s) =
   search (section_re systemPrompt_labels T) (at0 \<and> p = []) (NL # s)"
proof (induction p arbitrary: bol at0)
  case Nil
  then show ?case by simp
next
  case (Cons c p)
  from Cons.prems(1) have h: "bol \<longrightarrow> \<not> systemPrompt_label_at ((c # p) @ [NL])"
    and n: "no_label_line (c = NL) (p @ [NL])" by simp_all
  have 1: "at0 \<longrightarrow> \<not> systemPrompt_label_at (c # p @ NL # s)"
    using h Cons.prems(2) systemPrompt_label_at_straddle [of "c # p"] by simp
  have 2: "\<not> systemPrompt_label_at (p @ NL # s)" if "c = NL"
  proof -
    from n that have "no_label_line True (p @ [NL])" by simp
    then have "\<not> systemPrompt_label_at (p @ [NL])" by (rule no_label_line_hd)
    then show ?thesis using systemPrompt_label_at_straddle [of p] by simp
  qed
  have "section_re systemPrompt_labels T at0 (c # p @ NL # s) = []"
    by (rule section_re_none) (use 1 2 in auto)
  moreover have "search (section_re systemPrompt_labels T) False (p @ NL # s) =
      search (section_re systemPrompt_labels T) (False \<and> p = []) (NL # s)"
    by (rule Cons.IH [OF n]) simp
  ultimately show ?case by simp
qed

lemma section_re_at_label:
  assumes "eq_i label ''SYSTEM PROMPT'' \<or> eq_i label ''SYSTEM''"
    and "\<exists>ys. section_body T t = cap # ys"
  shows "\<exists>ys. section_re systemPrompt_labels T True (label @ CHR '':'' # t) = cap # ys"
    and "\<exists>ys. section_re systemPrompt_labels T at0 (NL # label @ CHR '':'' # t) = cap # ys"
proof -
  obtain ys where ys: "labelled systemPrompt_labels (label @ CHR '':'' # t) = t # ys"
    using labelled_systemPrompt [OF assms(1)] by blast
  obtain zs where zs: "section_body T t = cap # zs" using assms(2) by blast
  show "\<exists>ys. section_re systemPrompt_labels T True (label @ CHR '':'' # t) = cap # ys"
    by (simp add: section_re_labelled line_start_def ys zs)
  have "\<not> systemPrompt_label_at (NL # label @ CHR '':'' # t)"
    by (simp add: systemPrompt_label_at_def, simp add: NL_def)
  then have "labelled systemPrompt_labels (NL # label @ CHR '':'' # t) = []"
    by (rule labelled_none)
  then show "\<exists>ys. section_re systemPrompt_labels T at0 (NL # label @ CHR '':'' # t) = cap # ys"
    by (simp add: section_re_labelled line_start_def lit_i_def ys zs)
qed

lemma trim_id: "s \<noteq> [] \<Longrightarrow> \<not> is_space (hd s) \<Longrightarrow> \<not> is_space (last s) \<Longrightarrow> trim s = s"
proof -
  assume s: "s \<noteq> []" "\<not> is_space (hd s)" "\<not> is_space (last s)"
  then have "dropWhile is_space s = s" by (cases s) simp_all
  moreover have "dropWhile is_space (rev s) = rev s"
    using s by (cases "rev s") (simp_all add: hd_rev)
  ultimately show ?thesis by (simp add: trim_def)
qed

lemma match_labelled_section:
  assumes label: "eq_i label ''SYSTEM PROMPT'' \<or> eq_i label ''SYSTEM''"
    and pre: "pre = [] \<or> last pre = NL" "no_label_line True pre"
    and ws: "\<forall>c\<in>set ws. is_space c"
    and body: "body \<noteq> []" "\<not> is_space (hd body)" "no_end_inside (tl body) rest"
    and rest: "section_end_at rest"
  shows "regex_match systemPrompt_labels systemPrompt_end
           (pre @ label @ '':'' @ ws @ body @ rest) = Some body"
proof -
  let ?T = systemPrompt_end
  let ?t = "ws @ body @ rest"
  let ?s = "label @ CHR '':'' # ?t"
  have "\<exists>ys. captures ?T [] (body @ rest) = ([] @ body) # ys"
    using body(1)
  proof (rule captures_first)
    fix a b assume "body = a @ b" "a \<noteq> []" "b \<noteq> []"
    with body(3) show "?T (b @ rest) = []" by (rule section_text_no_end)
  next
    show "?T rest \<noteq> []" using rest systemPrompt_end_iff by blast
  qed
  then have "\<exists>ys. captures ?T [] (body @ rest) = body # ys" by simp
  with ws have sb: "\<exists>ys. section_body ?T (ws @ body @ rest) = body # ys"
    using body(1,2) by (intro section_body_first) simp_all
  note hit = section_re_at_label [OF label sb]
  show ?thesis
  proof (cases "pre = []")
    case True
    obtain ys where "section_re systemPrompt_labels ?T True ?s = body # ys"
      using hit(1) by blast
    then have "search (section_re systemPrompt_labels ?T) True ?s = Some body"
      by (rule search_hit)
    with True show ?thesis by (simp add: regex_match_def)
  next
    case False
    with pre(1) obtain p where p: "pre = p @ [NL]"
      by (metis append_butlast_last_id)
    obtain ys where "section_re systemPrompt_labels ?T (p = []) (NL # ?s) = body # ys"
      using hit(2) by blast
    then have "search (section_re systemPrompt_labels ?T) (True \<and> p = []) (NL # ?s) = Some body"
      by (simp add: search_hit)
    moreover have "search (section_re systemPrompt_labels ?T) True (p @ NL # ?s) =
        search (section_re systemPrompt_labels ?T) (True \<and> p = []) (NL # ?s)"
      using pre(2) p by (intro search_skip) simp_all
    ultimately show ?thesis by (simp add: regex_match_def p)
  qed
qed

text \<open>The section found is returned with the white space at its ends removed.\<close>

lemma extract_labelled_section:
  assumes "eq_i label ''SYSTEM PROMPT'' \<or> eq_i label ''SYSTEM''"
    and "pre = [] \<or> last pre = NL" and "no_label_line True pre"
    and "\<forall>c\<in>set ws. is_space c"
    and "body \<noteq> []" and "\<not> is_space (hd body)" and "no_end_inside (tl body) rest"
    and "section_end_at rest"
  shows "extractSystemPrompt (pre @ label @ '':'' @ ws @ body @ rest) = trim body"
proof -
  have "regex_match systemPrompt_labels systemPrompt_end
      (pre @ label @ '':'' @ ws @ body @ rest) = Some body"
    using assms by (rule match_labelled_section)
  then show ?thesis by (simp add: extractSystemPrompt_def)
qed

section \<open>The section extractor: properties\<close>

lemma startsWith_i_last_in:
  "startsWith_i s (l @ [c]) \<Longrightarrow> \<exists>x\<in>set s. canonicalize x = canonicalize c"
proof (induction l arbitrary: s)
  case Nil
  then show ?case by (cases s) auto
next
  case (Cons a l)
  then show ?case by (cases s) auto
qed

lemma labelled_no_colon: "CHR '':'' \<notin> set s \<Longrightarrow> labelled labels s = []"
proof -
  assume n: "CHR '':'' \<notin> set s"
  have "lit_i (l @ '':'') s = []" for l
  proof (rule ccontr)
    assume "lit_i (l @ '':'') s \<noteq> []"
    then have "startsWith_i s (l @ [CHR '':''])" by (simp add: lit_i_def split: if_splits)
    then obtain x where "x \<in> set s" "canonicalize x = canonicalize CHR '':''"
      using startsWith_i_last_in by blast
    with n show False by simp
  qed
  then show ?thesis by (simp add: labelled_def)
qed

lemma section_re_no_colon: "CHR '':'' \<notin> set s \<Longrightarrow> section_re labels T at0 s = []"
  by (cases s) (simp_all add: section_re_labelled line_start_def lit_i_def labelled_no_colon)

lemma search_no_colon: "CHR '':'' \<notin> set s \<Longrightarrow> search (section_re labels T) at0 s = None"
  by (induction s arbitrary: at0) (simp_all add: section_re_no_colon)

lemma regex_match_no_colon: "CHR '':'' \<notin> set s \<Longrightarrow> regex_match labels T s = None"
  by (simp add: regex_match_def search_no_colon)

text \<open>
  C6 (amended). The input has a first line that begins with the label \<open>SYSTEM PROMPT\<close> or
  \<open>SYSTEM\<close> (in any letter case) and a colon: before it, \<open>pre\<close> is empty or ends a line
  and has no such line. After the colon comes white space \<open>ws\<close> (a line feed when the
  label stands alone on its line), then the section text \<open>body\<close>, which starts at the
  first character that is not white space and runs up to the first place where the
  pattern lets a section end: the end of the input, two line feeds in a row, or a line
  feed followed by \<open>PLAN:\<close> or \<open>RATIONALE:\<close> in any letter case. Then
  \<open>extractSystemPrompt\<close> returns the section text with the white space at its ends removed,
  whatever follows. A line that holds white space is not two line feeds in a row, and
  does not end the section.
\<close>

theorem extractSystemPrompt_labelled_section:
  assumes "eq_i label ''SYSTEM PROMPT'' \<or> eq_i label ''SYSTEM''"
    and "pre = [] \<or> last pre = NL" and "no_label_line True pre"
    and "\<forall>c\<in>set ws. is_space c"
    and "body \<noteq> []" and "\<not> is_space (hd body)" and "no_end_inside (tl body) rest"
    and "section_end_at rest"
  shows "extractSystemPrompt (pre @ label @ '':'' @ ws @ body @ rest) = trim body"
proof -
  have "regex_match systemPrompt_labels systemPrompt_end
      (pre @ label @ '':'' @ ws @ body @ rest) = Some body"
    using assms by (rule match_labelled_section)
  then show ?thesis by (simp add: extractSystemPrompt_def)
qed

text \<open>
  Witness for C6: an introductory line, the label in mixed case, a section text of two
  lines with a space at its end, and a \<open>plan:\<close> label on the next line, which ends the
  section.
\<close>

theorem extractSystemPrompt_labelled_section_witness:
  "eq_i ''System Prompt'' ''SYSTEM PROMPT'' \<and>
   no_label_line True (''Plan for the task'' @ [NL]) \<and>
   no_end_inside (tl (''Build it'' @ [NL] @ ''carefully '')) ([NL] @ ''plan:'' @ [NL] @ ''Step 1'') \<and>
   section_end_at ([NL] @ ''plan:'' @ [NL] @ ''Step 1'') \<and>
   extractSystemPrompt
     ((''Plan for the task'' @ [NL]) @ ''System Prompt'' @ '':'' @ [NL] @
      (''Build it'' @ [NL] @ ''carefully '') @ ([NL] @ ''plan:'' @ [NL] @ ''Step 1'')) =
   ''Build it'' @ [NL] @ ''carefully''"
proof -
  have 1: "eq_i ''System Prompt'' ''SYSTEM PROMPT''"
    unfolding eq_i_def by code_simp
  have 2: "no_label_line True (''Plan for the task'' @ [NL])"
    by code_simp
  have 3: "no_end_inside (tl (''Build it'' @ [NL] @ ''carefully ''))
      ([NL] @ ''plan:'' @ [NL] @ ''Step 1'')"
    by code_simp
  have 4: "section_end_at ([NL] @ ''plan:'' @ [NL] @ ''Step 1'')"
    by code_simp
  have 5: "\<forall>c\<in>set [NL]. is_space c" by simp
  have 6: "\<not> is_space (hd (''Build it'' @ [NL] @ ''carefully ''))"
    by (simp add: is_space_def)
  have 7: "trim (''Build it'' @ [NL] @ ''carefully '') = ''Build it'' @ [NL] @ ''carefully''"
    by code_simp
  from extractSystemPrompt_labelled_section [of "''System Prompt''" "''Plan for the task'' @ [NL]"
        "[NL]" "''Build it'' @ [NL] @ ''carefully ''" "[NL] @ ''plan:'' @ [NL] @ ''Step 1''"]
  have "extractSystemPrompt
     ((''Plan for the task'' @ [NL]) @ ''System Prompt'' @ '':'' @ [NL] @
      (''Build it'' @ [NL] @ ''carefully '') @ ([NL] @ ''plan:'' @ [NL] @ ''Step 1'')) =
     trim (''Build it'' @ [NL] @ ''carefully '')"
    using 1 2 3 4 5 6 by simp
  with 1 2 3 4 7 show ?thesis by (simp only: simp_thms)
qed

text \<open>
  Counterexample to C6 as stated: the label line is followed by the text \<open>Build it\<close> and
  then by a line that holds one space, which is blank (\<open>trim\<close> leaves nothing of it, and
  the line filter of the same function would drop it); the result is not \<open>Build it\<close> but
  everything up to the end of the input.
\<close>

theorem extractSystemPrompt_blank_line_counterexample:
  "trim '' '' = [] \<and>
   extractSystemPrompt
     (''SYSTEM PROMPT:'' @ [NL] @ ''Build it'' @ [NL] @ '' '' @ [NL] @ ''Other text'') =
   ''Build it'' @ [NL] @ '' '' @ [NL] @ ''Other text''"
proof -
  have 1: "trim '' '' = []" by (simp add: trim_def is_space_def)
  have 2: "no_end_inside (tl (''Build it'' @ [NL] @ '' '' @ [NL] @ ''Other text'')) []"
    by code_simp
  have 3: "\<not> is_space (hd (''Build it'' @ [NL] @ '' '' @ [NL] @ ''Other text''))"
    by (simp add: is_space_def)
  have 4: "trim (''Build it'' @ [NL] @ '' '' @ [NL] @ ''Other text'') =
      ''Build it'' @ [NL] @ '' '' @ [NL] @ ''Other text''"
    by code_simp
  have e: "extractSystemPrompt
     ([] @ ''SYSTEM PROMPT'' @ '':'' @ [NL] @
      (''Build it'' @ [NL] @ '' '' @ [NL] @ ''Other text'') @ []) =
     trim (''Build it'' @ [NL] @ '' '' @ [NL] @ ''Other text'')"
    using 2 3 by (intro extract_labelled_section) (simp_all add: eq_i_def)
  have n: "[] @ ''SYSTEM PROMPT'' @ '':'' @ [NL] @
      (''Build it'' @ [NL] @ '' '' @ [NL] @ ''Other text'') @ [] =
      ''SYSTEM PROMPT:'' @ [NL] @ ''Build it'' @ [NL] @ '' '' @ [NL] @ ''Other text''"
    by simp
  from e have "extractSystemPrompt
     (''SYSTEM PROMPT:'' @ [NL] @ ''Build it'' @ [NL] @ '' '' @ [NL] @ ''Other text'') =
     ''Build it'' @ [NL] @ '' '' @ [NL] @ ''Other text''"
    by (simp only: n 4)
  with 1 show ?thesis by (simp only: simp_thms)
qed

lemma split_nl_ne [simp]: "split_nl s \<noteq> []"
  by (induction s) (auto split: list.splits)

lemma split_nl_no_NL: "NL \<notin> set s \<Longrightarrow> split_nl s = [s]"
  by (induction s) auto

lemma split_nl_append: "split_nl (a @ NL # b) = split_nl a @ split_nl b"
  by (induction a) (auto split: list.splits)

lemma split_nl_join: "xs \<noteq> [] \<Longrightarrow> split_nl (join [NL] xs) = concat (map split_nl xs)"
  by (induction "[NL]" xs rule: join.induct) (auto simp: split_nl_append)

text \<open>
  C7 (amended). When the pattern finds no label and the first non-blank line \<open>l\<close> has more
  than 200 characters, \<open>extractSystemPrompt\<close> returns the first 200 characters of that
  line with the white space at both ends removed, followed by \<open>...\<close>; these are exactly
  the first 200 characters when the first and the 200th character of the line are not
  white space.
\<close>

theorem extractSystemPrompt_long_line:
  assumes "regex_match systemPrompt_labels systemPrompt_end content = None"
    and "nonblank_lines content = l # ls" and "200 < length l"
  shows "extractSystemPrompt content = trim (take 200 l) @ ''...'' \<and>
         (\<not> is_space (hd l) \<and> \<not> is_space (l ! 199) \<longrightarrow>
            extractSystemPrompt content = take 200 l @ ''...'')"
proof -
  have e: "extractSystemPrompt content = trim (take 200 l) @ ''...''"
    using assms by (simp add: extractSystemPrompt_def)
  have "trim (take 200 l) = take 200 l" if "\<not> is_space (hd l)" "\<not> is_space (l ! 199)"
  proof (rule trim_id)
    show "take 200 l \<noteq> []" using assms(3) by auto
    show "\<not> is_space (hd (take 200 l))" using that(1) assms(3) by (cases l) auto
    have "take 200 l \<noteq> []" "length (take 200 l) = 200" using assms(3) by auto
    then have "last (take 200 l) = take 200 l ! 199"
      by (simp add: last_conv_nth)
    then have "last (take 200 l) = l ! 199" by simp
    then show "\<not> is_space (last (take 200 l))" using that(2) by simp
  qed
  with e show ?thesis by simp
qed

text \<open>
  Witness for C7: a first line of 250 letters and a second line.
\<close>

theorem extractSystemPrompt_long_line_witness:
  "regex_match systemPrompt_labels systemPrompt_end
     (replicate 250 (CHR ''a'') @ NL # ''tail'') = None \<and>
   nonblank_lines (replicate 250 (CHR ''a'') @ NL # ''tail'') =
     [replicate 250 (CHR ''a''), ''tail''] \<and>
   200 < length (replicate 250 (CHR ''a'')) \<and>
   extractSystemPrompt (replicate 250 (CHR ''a'') @ NL # ''tail'') =
     replicate 200 (CHR ''a'') @ ''...''"
proof -
  let ?l = "replicate 250 (CHR ''a'')"
  have 1: "regex_match systemPrompt_labels systemPrompt_end (?l @ NL # ''tail'') = None"
    by (rule regex_match_no_colon) (simp add: NL_def)
  have t: "trim ?l = ?l" "trim ''tail'' = ''tail''"
    by (rule trim_id; simp add: is_space_def)+
  have "split_nl ?l = [?l]" "split_nl ''tail'' = [''tail'']"
    by (rule split_nl_no_NL; simp add: NL_def)+
  then have "split_nl (?l @ NL # ''tail'') = [?l, ''tail'']"
    by (simp only: split_nl_append append_Cons append_Nil)
  then have 2: "nonblank_lines (?l @ NL # ''tail'') = [?l, ''tail'']"
    using t by (simp add: nonblank_lines_def)
  have 3: "200 < length ?l" by simp
  have "trim (replicate 200 (CHR ''a'')) = replicate 200 (CHR ''a'')"
    by (rule trim_id; simp add: is_space_def)
  with extractSystemPrompt_long_line [OF 1 2 3] 1 2 3 show ?thesis by simp
qed

lemma trim_leading: "is_space c \<Longrightarrow> trim (c # s) = trim s"
  by (simp add: trim_def)

text \<open>
  Counterexample to C7 as stated: a single line of one space and 200 letters has no label
  and 201 characters; the result is 199 letters and \<open>...\<close>, not the first 200
  characters of the line.
\<close>

theorem extractSystemPrompt_long_line_counterexample:
  "regex_match systemPrompt_labels systemPrompt_end (CHR '' '' # replicate 200 (CHR ''a'')) = None \<and>
   nonblank_lines (CHR '' '' # replicate 200 (CHR ''a'')) = [CHR '' '' # replicate 200 (CHR ''a'')] \<and>
   length (CHR '' '' # replicate 200 (CHR ''a'')) = 201 \<and>
   take 200 (CHR '' '' # replicate 200 (CHR ''a'')) = CHR '' '' # replicate 199 (CHR ''a'') \<and>
   extractSystemPrompt (CHR '' '' # replicate 200 (CHR ''a'')) = replicate 199 (CHR ''a'') @ ''...''"
proof -
  let ?c = "CHR '' '' # replicate 200 (CHR ''a'')"
  have sp: "is_space CHR '' ''" by (simp add: is_space_def)
  have 1: "regex_match systemPrompt_labels systemPrompt_end ?c = None"
    by (rule regex_match_no_colon) simp
  have "trim (replicate 200 (CHR ''a'')) = replicate 200 (CHR ''a'')"
    by (rule trim_id; simp add: is_space_def)
  then have "trim ?c \<noteq> []" by (simp add: trim_leading [OF sp])
  moreover have "split_nl ?c = [?c]"
    by (rule split_nl_no_NL) (simp add: NL_def)
  ultimately have 2: "nonblank_lines ?c = [?c]" by (simp add: nonblank_lines_def)
  have 3: "take 200 ?c = CHR '' '' # replicate 199 (CHR ''a'')" by simp
  have "trim (replicate 199 (CHR ''a'')) = replicate 199 (CHR ''a'')"
    by (rule trim_id; simp add: is_space_def)
  then have "trim (take 200 ?c) = replicate 199 (CHR ''a'')"
    by (simp only: 3 trim_leading [OF sp])
  then have "extractSystemPrompt ?c = replicate 199 (CHR ''a'') @ ''...''"
    by (simp add: extractSystemPrompt_def 1 2)
  with 1 2 3 show ?thesis by simp
qed


section \<open>Merging: properties\<close>

lemma extractSystemPrompt_empty: "extractSystemPrompt [] = []"
  by code_simp

text \<open>
  C8. When the system-prompt sections extracted from both planners' outputs are empty,
  \<open>mergedPrompt\<close> is the task, a blank line and the default phrase.
\<close>

theorem mergedPrompt_empty_sections:
  assumes "extractSystemPrompt (systemPrompt cx) = []"
    and "extractSystemPrompt (systemPrompt cl) = []"
  shows "mergedPrompt (planWithJanus task cx cl) =
           task @ [NL, NL] @ ''Execute the task with precision and clarity.''"
  using assms
  by (simp add: planWithJanus_def section_systemPrompt_def mergeSystemPrompts_def
      extractSystemPrompt_empty or_else_def)

text \<open>
  Witness for C8: a primary output of white space only and an empty secondary output.
\<close>

theorem mergedPrompt_empty_sections_witness:
  "extractSystemPrompt (systemPrompt \<lparr>provider = codex, systemPrompt = ''   '', plan = ''Step 1'', rationale = []\<rparr>) = [] \<and>
   extractSystemPrompt (systemPrompt \<lparr>provider = claude, systemPrompt = [], plan = [], rationale = ''Stub''\<rparr>) = [] \<and>
   mergedPrompt (planWithJanus ''Add logging''
       \<lparr>provider = codex, systemPrompt = ''   '', plan = ''Step 1'', rationale = []\<rparr>
       \<lparr>provider = claude, systemPrompt = [], plan = [], rationale = ''Stub''\<rparr>) =
     ''Add logging'' @ [NL, NL] @ ''Execute the task with precision and clarity.''"
proof -
  have 1: "extractSystemPrompt ''   '' = []" by code_simp
  show ?thesis
    using mergedPrompt_empty_sections [of
        "\<lparr>provider = codex, systemPrompt = ''   '', plan = ''Step 1'', rationale = []\<rparr>"
        "\<lparr>provider = claude, systemPrompt = [], plan = [], rationale = ''Stub''\<rparr>" "''Add logging''"]
    by (simp add: 1 extractSystemPrompt_empty)
qed

lemma extract_example_codex:
  "extractSystemPrompt
     (''SYSTEM PROMPT:'' @ [NL] @ ''Build it carefully'' @ [NL, NL] @ ''PLAN:'' @ [NL] @ ''Step 1'') =
   ''Build it carefully''"
proof -
  have 1: "eq_i ''SYSTEM PROMPT'' ''SYSTEM PROMPT'' \<or> eq_i ''SYSTEM PROMPT'' ''SYSTEM''"
    by (simp add: eq_i_def)
  have 2: "([]::string) = [] \<or> last [] = NL" by simp
  have 3: "no_label_line True []" by simp
  have 4: "\<forall>c\<in>set [NL]. is_space c" by simp
  have 5: "''Build it carefully'' \<noteq> []" by simp
  have 6: "\<not> is_space (hd ''Build it carefully'')" by (simp add: is_space_def)
  have 7: "no_end_inside (tl ''Build it carefully'') ([NL, NL] @ ''PLAN:'' @ [NL] @ ''Step 1'')"
    by code_simp
  have 8: "section_end_at ([NL, NL] @ ''PLAN:'' @ [NL] @ ''Step 1'')"
    by code_simp
  have t: "trim ''Build it carefully'' = ''Build it carefully''"
    by code_simp
  have e: "extractSystemPrompt
      ([] @ ''SYSTEM PROMPT'' @ '':'' @ [NL] @ ''Build it carefully'' @
       ([NL, NL] @ ''PLAN:'' @ [NL] @ ''Step 1'')) = trim ''Build it carefully''"
    by (rule extract_labelled_section [OF 1 2 3 4 5 6 7 8])
  have n: "[] @ ''SYSTEM PROMPT'' @ '':'' @ [NL] @ ''Build it carefully'' @
       ([NL, NL] @ ''PLAN:'' @ [NL] @ ''Step 1'') =
      ''SYSTEM PROMPT:'' @ [NL] @ ''Build it carefully'' @ [NL, NL] @ ''PLAN:'' @ [NL] @ ''Step 1''"
    by simp
  from e show ?thesis by (simp only: n t)
qed

lemma extract_example_claude:
  "extractSystemPrompt (''Consider edge cases.'' @ [NL] @ ''Note potential race.'') =
   ''Consider edge cases. Note potential race.''"
  by code_simp

lemma mergeSystemPrompts_example:
  "mergeSystemPrompts ''Add logging'' ''Build it carefully''
     ''Consider edge cases. Note potential race.'' =
   ''Task: Add logging'' @ [NL] @ ''Approach: Build it carefully'' @ [NL] @
   ''Considerations: Consider edge cases. Note potential race.''"
  by code_simp

text \<open>
  C2 (amended). For the task \<open>Add logging\<close>, a primary \<open>systemPrompt\<close> of
  \<open>SYSTEM PROMPT:\nBuild it carefully\n\nPLAN:\nStep 1\<close> and a secondary \<open>systemPrompt\<close> of
  \<open>Consider edge cases.\nNote potential race.\<close>, the \<open>mergedPrompt\<close> is
  \<open>Task: Add logging\nApproach: Build it carefully\nConsiderations: Consider edge cases.
  Note potential race.\<close>: the secondary section is extracted as its two lines joined by a
  space, so it is one line when the refinements are filtered, and the line is kept in its
  own letter case.
\<close>

theorem mergedPrompt_example:
  assumes "systemPrompt cx =
      ''SYSTEM PROMPT:'' @ [NL] @ ''Build it carefully'' @ [NL, NL] @ ''PLAN:'' @ [NL] @ ''Step 1''"
    and "systemPrompt cl = ''Consider edge cases.'' @ [NL] @ ''Note potential race.''"
  shows "mergedPrompt (planWithJanus ''Add logging'' cx cl) =
     ''Task: Add logging'' @ [NL] @ ''Approach: Build it carefully'' @ [NL] @
     ''Considerations: Consider edge cases. Note potential race.''"
  unfolding planWithJanus_def section_systemPrompt_def assms
    extract_example_codex extract_example_claude
  by (simp add: mergeSystemPrompts_example)

text \<open>
  Witness for C2: the two results of the example, with empty plan and rationale.
\<close>

theorem mergedPrompt_example_witness:
  "systemPrompt example_codex =
      ''SYSTEM PROMPT:'' @ [NL] @ ''Build it carefully'' @ [NL, NL] @ ''PLAN:'' @ [NL] @ ''Step 1'' \<and>
   systemPrompt example_claude = ''Consider edge cases.'' @ [NL] @ ''Note potential race.'' \<and>
   mergedPrompt (planWithJanus ''Add logging'' example_codex example_claude) =
     ''Task: Add logging'' @ [NL] @ ''Approach: Build it carefully'' @ [NL] @
     ''Considerations: Consider edge cases. Note potential race.''"
  using mergedPrompt_example [of example_codex example_claude]
  by (simp add: example_codex_def example_claude_def)

text \<open>
  Counterexample to C2 as stated: the \<open>mergedPrompt\<close> of the example is not the text with
  \<open>Considerations: consider edge cases.; note potential race.\<close>
\<close>

theorem mergedPrompt_example_counterexample:
  "mergedPrompt (planWithJanus ''Add logging'' example_codex example_claude) \<noteq>
     ''Task: Add logging'' @ [NL] @ ''Approach: Build it carefully'' @ [NL] @
     ''Considerations: consider edge cases.; note potential race.''"
proof -
  have "mergedPrompt (planWithJanus ''Add logging'' example_codex example_claude) =
     ''Task: Add logging'' @ [NL] @ ''Approach: Build it carefully'' @ [NL] @
     ''Considerations: Consider edge cases. Note potential race.''"
    unfolding planWithJanus_def section_systemPrompt_def example_codex_def example_claude_def
      PlanResult.simps JanusOutput.simps extract_example_codex extract_example_claude
    by (simp add: mergeSystemPrompts_example)
  then show ?thesis by simp
qed

lemma section_rationale_or: "or_else (section_rationale r) (rationale r) = section_rationale r"
  by (simp add: section_rationale_def or_else_def)

lemma plan_block_nonempty: "or_else p ''(see rationale)'' \<noteq> []"
  by (simp add: or_else_def)

lemma kept_iff: "b \<in> set (kept x) \<longleftrightarrow> b = x \<and> x \<noteq> []"
  by (auto simp: kept_def)

lemma notes_kept:
  "filter (\<lambda>line. line \<noteq> []) (notes_blocks cx cl) =
     [''# Codex Proposal'', ''## System Prompt''] @ kept (section_systemPrompt cx) @
     [''## Plan'', or_else (section_planText cx) ''(see rationale)'', ''## Rationale''] @
     kept (section_rationale cx) @
     [''---'', ''# Claude Proposal'', ''## System Prompt''] @ kept (section_systemPrompt cl) @
     [''## Plan'', or_else (section_planText cl) ''(see rationale)'', ''## Rationale''] @
     kept (section_rationale cl)"
  by (simp add: notes_blocks_def kept_def section_rationale_or plan_block_nonempty)

text \<open>
  C5 (amended). \<open>mergedNotes\<close> is the join by line feeds of the fixed headings and of the
  section texts that are not empty: an entry that is exactly the empty string is dropped
  before the join, and every heading stays. The plan entry is never empty (it falls back
  to \<open>(see rationale)\<close>), so \<open>## Plan\<close> always has a content; \<open>## System Prompt\<close> and
  \<open>## Rationale\<close> stay without content when their section is empty.
\<close>

theorem mergedNotes_blocks:
  "mergedNotes (planWithJanus task cx cl) =
     join [NL]
       ([''# Codex Proposal'', ''## System Prompt''] @ kept (section_systemPrompt cx) @
        [''## Plan'', or_else (section_planText cx) ''(see rationale)'', ''## Rationale''] @
        kept (section_rationale cx) @
        [''---'', ''# Claude Proposal'', ''## System Prompt''] @ kept (section_systemPrompt cl) @
        [''## Plan'', or_else (section_planText cl) ''(see rationale)'', ''## Rationale''] @
        kept (section_rationale cl)) \<and>
   or_else (section_planText cx) ''(see rationale)'' \<noteq> [] \<and>
   or_else (section_planText cl) ''(see rationale)'' \<noteq> []"
  by (simp only: planWithJanus_def JanusOutput.simps notes_kept plan_block_nonempty
      not_False_eq_True simp_thms)

text \<open>
  Counterexample to C5 as stated: the secondary result has an empty system prompt, and
  in \<open>mergedNotes\<close> the heading \<open>## System Prompt\<close> of the Claude proposal is followed
  at once by the heading \<open>## Plan\<close>.
\<close>

theorem mergedNotes_blocks_counterexample:
  "mergedNotes (planWithJanus ''Add logging'' logger_codex silent_claude) =
     join [NL]
       [''# Codex Proposal'', ''## System Prompt'', ''Add a logger'', ''## Plan'', ''Step 1'',
        ''## Rationale'', ''Keeps a record'', ''---'', ''# Claude Proposal'',
        ''## System Prompt'', ''## Plan'', ''(see rationale)'', ''## Rationale'',
        ''Claude-style critique via Anthropic API.'']"
  by code_simp

lemma no_blank_line: "NL \<notin> set h \<Longrightarrow> h \<noteq> [] \<Longrightarrow> [] \<notin> set (split_nl h)"
  by (simp add: split_nl_no_NL)

lemma heading_lines:
  "[] \<notin> set (split_nl ''# Codex Proposal'')" "[] \<notin> set (split_nl ''## System Prompt'')"
  "[] \<notin> set (split_nl ''## Plan'')" "[] \<notin> set (split_nl ''## Rationale'')"
  "[] \<notin> set (split_nl ''---'')" "[] \<notin> set (split_nl ''# Claude Proposal'')"
  "[] \<notin> set (split_nl ''(see rationale)'')"
  by (rule no_blank_line; simp add: NL_def)+

lemma heading_split:
  "split_nl ''# Codex Proposal'' = [''# Codex Proposal'']"
  "split_nl ''---'' = [''---'']"
  "split_nl ''# Claude Proposal'' = [''# Claude Proposal'']"
  by (rule split_nl_no_NL; simp add: NL_def)+

lemma plan_block_blank:
  assumes "[] \<in> set (split_nl (or_else p ''(see rationale)''))"
  shows "p \<noteq> [] \<and> [] \<in> set (split_nl p)"
proof (cases "p = []")
  case True
  then have "or_else p ''(see rationale)'' = ''(see rationale)''"
    by (simp add: or_else_def)
  with assms heading_lines(7) show ?thesis by metis
next
  case False
  then have "or_else p ''(see rationale)'' = p" by (simp add: or_else_def)
  with assms False show ?thesis by metis
qed

lemma blank_in_blocks:
  assumes "b \<in> set ([h1, h2] @ kept a1 @ [h3, p1, h4] @ kept r1 @ [h5, h6, h2] @ kept a2 @
      [h3, p2, h4] @ kept r2)"
    and "[] \<in> set (split_nl b)"
    and "[] \<notin> set (split_nl h1)" "[] \<notin> set (split_nl h2)" "[] \<notin> set (split_nl h3)"
      "[] \<notin> set (split_nl h4)" "[] \<notin> set (split_nl h5)" "[] \<notin> set (split_nl h6)"
  shows "b = p1 \<or> b = p2 \<or> (b \<in> {a1, r1, a2, r2} \<and> b \<noteq> [])"
  using assms by (auto simp: kept_iff)

text \<open>
  C9 (amended). \<open>mergedNotes\<close> always has the lines \<open># Codex Proposal\<close>, \<open>---\<close> and
  \<open># Claude Proposal\<close>; it is the join by single line feeds of the entries that are not
  the empty string, so no blank line comes from a spacer or from an empty entry: a blank
  line of \<open>mergedNotes\<close> is a blank line inside one of the six section texts.
\<close>

theorem mergedNotes_lines:
  "''# Codex Proposal'' \<in> set (split_nl (mergedNotes (planWithJanus task cx cl))) \<and>
   ''---'' \<in> set (split_nl (mergedNotes (planWithJanus task cx cl))) \<and>
   ''# Claude Proposal'' \<in> set (split_nl (mergedNotes (planWithJanus task cx cl))) \<and>
   mergedNotes (planWithJanus task cx cl) =
     join [NL] (filter (\<lambda>line. line \<noteq> []) (notes_blocks cx cl)) \<and>
   [] \<notin> set (filter (\<lambda>line. line \<noteq> []) (notes_blocks cx cl)) \<and>
   ([] \<in> set (split_nl (mergedNotes (planWithJanus task cx cl))) \<longrightarrow>
      (\<exists>b\<in>{section_systemPrompt cx, section_planText cx, section_rationale cx,
            section_systemPrompt cl, section_planText cl, section_rationale cl}.
         b \<noteq> [] \<and> [] \<in> set (split_nl b)))"
proof -
  let ?bs = "filter (\<lambda>line. line \<noteq> []) (notes_blocks cx cl)"
  let ?N = "mergedNotes (planWithJanus task cx cl)"
  have N: "?N = join [NL] ?bs" by (simp add: planWithJanus_def)
  have ne: "?bs \<noteq> []" by (simp add: notes_kept)
  have "split_nl ?N = concat (map split_nl ?bs)"
    unfolding N using ne by (rule split_nl_join)
  then have lines: "set (split_nl ?N) = (\<Union>b\<in>set ?bs. set (split_nl b))"
    by (simp only: set_concat set_map image_image)
  have m: "''# Codex Proposal'' \<in> set ?bs" "''---'' \<in> set ?bs" "''# Claude Proposal'' \<in> set ?bs"
    by (simp_all add: notes_kept)
  have s: "''# Codex Proposal'' \<in> set (split_nl ''# Codex Proposal'')"
    "''---'' \<in> set (split_nl ''---'')"
    "''# Claude Proposal'' \<in> set (split_nl ''# Claude Proposal'')"
    by (simp_all only: heading_split list.set_intros)
  have h1: "''# Codex Proposal'' \<in> set (split_nl ?N)"
    unfolding lines using m(1) s(1) by blast
  have h2: "''---'' \<in> set (split_nl ?N)"
    unfolding lines using m(2) s(2) by blast
  have h3: "''# Claude Proposal'' \<in> set (split_nl ?N)"
    unfolding lines using m(3) s(3) by blast
  have blank: "\<exists>b\<in>{section_systemPrompt cx, section_planText cx, section_rationale cx,
            section_systemPrompt cl, section_planText cl, section_rationale cl}.
         b \<noteq> [] \<and> [] \<in> set (split_nl b)" if "[] \<in> set (split_nl ?N)"
  proof -
    from that obtain b where b: "b \<in> set ?bs" "[] \<in> set (split_nl b)"
      unfolding lines by blast
    from b(1) have "b \<in> set ([''# Codex Proposal'', ''## System Prompt''] @
        kept (section_systemPrompt cx) @
        [''## Plan'', or_else (section_planText cx) ''(see rationale)'', ''## Rationale''] @
        kept (section_rationale cx) @
        [''---'', ''# Claude Proposal'', ''## System Prompt''] @ kept (section_systemPrompt cl) @
        [''## Plan'', or_else (section_planText cl) ''(see rationale)'', ''## Rationale''] @
        kept (section_rationale cl))"
      by (simp only: notes_kept)
    then have "b = or_else (section_planText cx) ''(see rationale)'' \<or>
        b = or_else (section_planText cl) ''(see rationale)'' \<or>
        (b \<in> {section_systemPrompt cx, section_rationale cx, section_systemPrompt cl,
              section_rationale cl} \<and> b \<noteq> [])"
      using b(2) heading_lines(1-6) by (rule blank_in_blocks)
    then consider
        "b = or_else (section_planText cx) ''(see rationale)''"
      | "b = or_else (section_planText cl) ''(see rationale)''"
      | "b \<in> {section_systemPrompt cx, section_rationale cx, section_systemPrompt cl,
              section_rationale cl}" "b \<noteq> []"
      by metis
    then show ?thesis
    proof cases
      case 1
      with b(2) plan_block_blank show ?thesis by blast
    next
      case 2
      with b(2) plan_block_blank show ?thesis by blast
    next
      case 3
      with b(2) show ?thesis by blast
    qed
  qed
  have "[] \<notin> set ?bs" by simp
  with N h1 h2 h3 blank show ?thesis by blast
qed

lemma two_paragraph_blank_line:
  "[] \<in> set (split_nl (mergedNotes (planWithJanus ''Add logging'' two_paragraph_codex silent_claude)))"
  by code_simp

text \<open>
  Counterexample to C9 as stated: the rationale extracted from the primary output has two
  paragraphs, and \<open>mergedNotes\<close> has a blank line.
\<close>

theorem mergedNotes_lines_counterexample:
  "[] \<in> set (split_nl (mergedNotes (planWithJanus ''Add logging'' two_paragraph_codex silent_claude)))"
  by (rule two_paragraph_blank_line)

text \<open>
  Witness for C9: the same input; the blank line is the one of the extracted rationale,
  and the fixed lines are there.
\<close>

theorem mergedNotes_lines_witness:
  "[] \<in> set (split_nl (mergedNotes (planWithJanus ''Add logging'' two_paragraph_codex silent_claude))) \<and>
   section_rationale two_paragraph_codex = ''Fast.'' @ [NL, NL] @ ''Safe.'' \<and>
   [] \<in> set (split_nl (section_rationale two_paragraph_codex)) \<and>
   ''# Codex Proposal'' \<in>
     set (split_nl (mergedNotes (planWithJanus ''Add logging'' two_paragraph_codex silent_claude))) \<and>
   ''---'' \<in>
     set (split_nl (mergedNotes (planWithJanus ''Add logging'' two_paragraph_codex silent_claude)))"
proof -
  note lines = mergedNotes_lines [of "''Add logging''" two_paragraph_codex silent_claude]
  have 1: "section_rationale two_paragraph_codex = ''Fast.'' @ [NL, NL] @ ''Safe.''"
    by code_simp
  have "[] \<in> set (split_nl (''Fast.'' @ [NL, NL] @ ''Safe.''))"
    by code_simp
  then have 2: "[] \<in> set (split_nl (section_rationale two_paragraph_codex))"
    by (simp only: 1)
  from lines have 3: "''# Codex Proposal'' \<in>
     set (split_nl (mergedNotes (planWithJanus ''Add logging'' two_paragraph_codex silent_claude)))"
    by (rule conjunct1)
  from lines have 4: "''---'' \<in>
     set (split_nl (mergedNotes (planWithJanus ''Add logging'' two_paragraph_codex silent_claude)))"
    by (rule conjunct1 [OF conjunct2])
  from two_paragraph_blank_line 1 2 3 4 show ?thesis by (intro conjI)
qed

end
